theory Spec2Isabelle
  imports Complex_Main
begin

section \<open>Synthetic recommendation dataset generator (dataset_v1/gpt_data_gen.py)\<close>

text \<open>
  A shallow embedding of the generator script. Dictionaries are association lists in
  insertion order (the order Python iterates them in), exceptions are values of
  \<open>py_error\<close>, and the global random number generator is an explicit state
  threaded through every sampling function. Python floats are values of
  \<^typ>\<open>real\<close>. The affinity combiner computes in double precision, every
  operation rounded to the nearest double, since what its weights sum to depends on
  the rounding; the samplers, whose results are only compared with bounds, compute
  without rounding.
\<close>

subsection \<open>Exceptions and dictionaries\<close>

datatype py_error =
    KeyError string
  | IndexError
  | ValueError string
  | ZeroDivisionError
  | StopIteration
  | OSError string

text \<open>\<open>d[k]\<close> on a dictionary: the value, or \<open>KeyError\<close>.\<close>

definition lookup :: "(string \<times> 'v) list \<Rightarrow> string \<Rightarrow> py_error + 'v" where
  "lookup d k = (case map_of d k of None \<Rightarrow> Inl (KeyError k) | Some v \<Rightarrow> Inr v)"

text \<open>\<open>list(d)\<close> and \<open>d.values()\<close>.\<close>

definition keys :: "(string \<times> 'v) list \<Rightarrow> string list" where
  "keys d = map fst d"

definition vals :: "(string \<times> 'v) list \<Rightarrow> 'v list" where
  "vals d = map snd d"

subsection \<open>The random module\<close>

text \<open>
  The generator state is the stream of raw words the Mersenne Twister is still going
  to produce; how \<open>random.seed\<close> maps a seed to that stream is a parameter of
  \<open>main\<close>. Each primitive consumes one word. \<open>random.random()\<close> is a multiple of
  \<open>2\<^sup>-\<^sup>5\<^sup>3\<close> in \<open>[0, 1)\<close>; \<open>_randbelow(n)\<close> is a value below \<open>n\<close>. Every
  sequence of results the library can deliver is the image of some stream.
\<close>

type_synonym rng = "nat \<Rightarrow> nat"

definition random_random :: "rng \<Rightarrow> real \<times> rng" where
  "random_random g = (real (g 0 mod 2 ^ 53) / 2 ^ 53, (\<lambda>i. g (Suc i)))"

definition randbelow :: "nat \<Rightarrow> rng \<Rightarrow> nat \<times> rng" where
  "randbelow n g = (g 0 mod n, (\<lambda>i. g (Suc i)))"

text \<open>\<open>random.randint(a, b)\<close> is \<open>randrange(a, b + 1)\<close>.\<close>

definition random_randint :: "int \<Rightarrow> int \<Rightarrow> rng \<Rightarrow> py_error + (int \<times> rng)" where
  "random_randint a b g =
     (let width = b + 1 - a in
      if 0 < width then
        (case randbelow (nat width) g of (r, g') \<Rightarrow> Inr (a + int r, g'))
      else Inl (ValueError ''empty range for randrange()''))"

definition random_choice :: "'a list \<Rightarrow> rng \<Rightarrow> py_error + ('a \<times> rng)" where
  "random_choice seq g =
     (if seq = [] then Inl IndexError
      else (case randbelow (length seq) g of (r, g') \<Rightarrow> Inr (seq ! r, g')))"

definition random_uniform :: "real \<Rightarrow> real \<Rightarrow> rng \<Rightarrow> real \<times> rng" where
  "random_uniform a b g = (case random_random g of (u, g') \<Rightarrow> (a + (b - a) * u, g'))"

text \<open>\<open>itertools.accumulate\<close>: the running sums.\<close>

fun accumulate :: "real \<Rightarrow> real list \<Rightarrow> real list" where
  "accumulate acc [] = []"
| "accumulate acc (w # ws) = (acc + w) # accumulate (acc + w) ws"

text \<open>\<open>bisect.bisect_right(a, x, lo, hi)\<close>, the binary search of the library.\<close>

function bisect_right :: "real list \<Rightarrow> real \<Rightarrow> nat \<Rightarrow> nat \<Rightarrow> nat" where
  "bisect_right a x lo hi =
     (if lo < hi then
        (let mid = (lo + hi) div 2 in
         if x < a ! mid then bisect_right a x lo mid
         else bisect_right a x (mid + 1) hi)
      else lo)"
  by pat_completeness auto
termination
  by (relation "measure (\<lambda>(a, x, lo, hi). hi - lo)") auto

declare bisect_right.simps [simp del]

text \<open>
  \<open>random.choices(population, weights=weights)[0]\<close>: cumulative weights, one call
  of \<open>random()\<close>, and a bisection over all but the last cumulative weight.
\<close>

definition random_choices :: "'a list \<Rightarrow> real list \<Rightarrow> rng \<Rightarrow> py_error + ('a \<times> rng)" where
  "random_choices population weights g =
     (let n = length population; cum_weights = accumulate 0 weights in
      if length cum_weights \<noteq> n then
        Inl (ValueError ''The number of weights does not match the population'')
      else if cum_weights = [] then Inl IndexError
      else
        (let total = last cum_weights in
         if total \<le> 0 then Inl (ValueError ''Total of weights must be greater than zero'')
         else (case random_random g of (u, g') \<Rightarrow>
                 Inr (population ! bisect_right cum_weights (u * total) 0 (n - 1), g'))))"

text \<open>
  \<open>round(x, 2)\<close>: to the nearest multiple of 0.01, a tie going to the even
  neighbour.
\<close>

definition py_round2 :: "real \<Rightarrow> real" where
  "py_round2 x =
     (let y = x * 100; f = \<lfloor>y\<rfloor>; d = y - of_int f in
      of_int (if d < 1 / 2 then f else if 1 / 2 < d then f + 1
              else if even f then f else f + 1) / 100)"

subsection \<open>Double-precision arithmetic\<close>

text \<open>\<open>int.bit_length\<close>.\<close>

fun bit_length :: "nat \<Rightarrow> nat" where
  "bit_length n = (if n = 0 then 0 else Suc (bit_length (n div 2)))"

declare bit_length.simps [simp del]

text \<open>The exponent of a positive number: the integer part of its binary logarithm.\<close>

definition ilog2 :: "real \<Rightarrow> int" where
  "ilog2 x =
     (if 1 \<le> x then int (bit_length (nat \<lfloor>x\<rfloor>)) - 1
      else - int (bit_length (nat (\<lceil>1 / x\<rceil> - 1))))"

definition pow2 :: "int \<Rightarrow> real" where
  "pow2 e = (if 0 \<le> e then 2 ^ nat e else 1 / 2 ^ nat (- e))"

definition round_half_even :: "real \<Rightarrow> int" where
  "round_half_even y =
     (let f = \<lfloor>y\<rfloor>; d = y - of_int f in
      if d < 1 / 2 then f else if 1 / 2 < d then f + 1
      else if even f then f else f + 1)"

text \<open>
  The double nearest to a number, a tie going to the even significand of 53 bits
  (IEEE 754 binary64, round to nearest even). The exponent is not bounded: the
  magnitudes of this program are far from overflow and from the subnormal range.
  A float literal of the source denotes \<open>f64\<close> of its decimal value.
\<close>

definition f64 :: "real \<Rightarrow> real" where
  "f64 x =
     (if x = 0 then 0
      else (let e = ilog2 \<bar>x\<bar> - 52 in of_int (round_half_even (x / pow2 e)) * pow2 e))"

text \<open>Addition and division of floats: the exact result, rounded.\<close>

definition fadd :: "real \<Rightarrow> real \<Rightarrow> real" where
  "fadd a b = f64 (a + b)"

definition fdiv :: "real \<Rightarrow> real \<Rightarrow> real" where
  "fdiv a b = f64 (a / b)"

text \<open>
  The builtin \<open>sum\<close> on a sequence of floats: additions from left to right,
  starting from 0, as CPython computes it up to version 3.11. (From 3.12 on \<open>sum\<close>
  carries a compensation term, which moves some totals by one unit in the last
  place.)
\<close>

definition py_sum :: "real list \<Rightarrow> real" where
  "py_sum xs = foldl fadd 0 xs"

subsection \<open>Configuration\<close>

definition RECS_PER_USER :: nat where
  "RECS_PER_USER = 10"

record age_band_cfg =
  band_range :: "int \<times> int"
  p :: real

definition AGE_BANDS :: "(string \<times> age_band_cfg) list" where
  "AGE_BANDS =
    [(''18-25'', \<lparr>band_range = (18, 25), p = 0.25\<rparr>),
     (''26-35'', \<lparr>band_range = (26, 35), p = 0.35\<rparr>),
     (''36-45'', \<lparr>band_range = (36, 45), p = 0.25\<rparr>),
     (''46-60'', \<lparr>band_range = (46, 60), p = 0.12\<rparr>),
     (''60+'', \<lparr>band_range = (61, 75), p = 0.03\<rparr>)]"

definition GENDERS :: "(string \<times> real) list" where
  "GENDERS = [(''Male'', 0.52), (''Female'', 0.48)]"

record tier_cfg =
  cities :: "string list"
  states :: "string list"
  price_weights :: "real list"

definition TIERS :: "(string \<times> tier_cfg) list" where
  "TIERS =
    [(''Tier1'',
       \<lparr>cities = [''Mumbai'', ''Delhi'', ''Bangalore'', ''Hyderabad'', ''Chennai'',
                  ''Pune'', ''Kolkata'', ''Ahmedabad'', ''Surat'', ''Jaipur''],
        states = [''Maharashtra'', ''Delhi'', ''Karnataka'', ''Telangana'', ''Tamil Nadu'',
                  ''Maharashtra'', ''West Bengal'', ''Gujarat'', ''Gujarat'', ''Rajasthan''],
        price_weights = [0.20, 0.35, 0.28, 0.17]\<rparr>),
     (''Tier2'',
       \<lparr>cities = [''Lucknow'', ''Kanpur'', ''Nagpur'', ''Indore'', ''Bhopal'',
                  ''Visakhapatnam'', ''Patna'', ''Vadodara'', ''Coimbatore'', ''Agra''],
        states = [''Uttar Pradesh'', ''Uttar Pradesh'', ''Maharashtra'', ''Madhya Pradesh'',
                  ''Madhya Pradesh'', ''Andhra Pradesh'', ''Bihar'', ''Gujarat'',
                  ''Tamil Nadu'', ''Uttar Pradesh''],
        price_weights = [0.30, 0.40, 0.22, 0.08]\<rparr>),
     (''Tier3'',
       \<lparr>cities = [''Rajkot'', ''Meerut'', ''Nashik'', ''Faridabad'', ''Ghaziabad'',
                  ''Jabalpur'', ''Ranchi'', ''Mysore'', ''Jodhpur'', ''Kota''],
        states = [''Gujarat'', ''Uttar Pradesh'', ''Maharashtra'', ''Haryana'',
                  ''Uttar Pradesh'', ''Madhya Pradesh'', ''Jharkhand'', ''Karnataka'',
                  ''Rajasthan'', ''Rajasthan''],
        price_weights = [0.43, 0.42, 0.12, 0.03]\<rparr>)]"

definition TIER_PROBS :: "real list" where
  "TIER_PROBS = [0.40, 0.35, 0.25]"

definition PRICE_BUCKETS :: "string list" where
  "PRICE_BUCKETS = [''Budget'', ''Mid'', ''Premium'', ''Luxury'']"

definition PRICE_RANGES :: "(string \<times> (int \<times> int)) list" where
  "PRICE_RANGES =
    [(''Budget'', (100, 1000)),
     (''Mid'', (1001, 5000)),
     (''Premium'', (5001, 15000)),
     (''Luxury'', (15001, 60000))]"

record category_cfg =
  items :: "string list"
  brands :: "string list"

definition CATEGORIES :: "(string \<times> category_cfg) list" where
  "CATEGORIES =
    [(''Electronics'',
       \<lparr>items = [''Smartphone'', ''Laptop'', ''Headphones'', ''Smart Watch'', ''Tablet'',
                 ''Camera''],
        brands = [''Samsung'', ''Apple'', ''OnePlus'', ''Xiaomi'', ''Realme'', ''Vivo'',
                  ''HP'', ''Dell'', ''Lenovo'', ''Sony'', ''JBL'', ''Boat'']\<rparr>),
     (''Fashion'',
       \<lparr>items = [''T-shirt'', ''Jeans'', ''Kurta'', ''Saree'', ''Dress'', ''Footwear'',
                 ''Ethnic Wear''],
        brands = [''H&M'', ''Zara'', ''Nike'', ''Adidas'', ''Puma'', ''Fabindia'', ''W'',
                  ''Biba'', ''Allen Solly'', ''Van Heusen'', ''Levi's'', ''Pepe Jeans'']\<rparr>),
     (''Home'',
       \<lparr>items = [''Furniture'', ''Kitchen Appliance'', ''Home Decor'', ''Bedding'',
                 ''Storage Solution''],
        brands = [''IKEA'', ''Godrej'', ''Whirlpool'', ''LG'', ''Prestige'', ''Pigeon'',
                  ''Home Centre'', ''Fabfurnish'']\<rparr>),
     (''Beauty'',
       \<lparr>items = [''Skincare'', ''Makeup'', ''Haircare'', ''Perfume'', ''Grooming Product''],
        brands = [''Lakme'', ''Maybelline'', ''L'Oreal'', ''Nivea'', ''Dove'', ''Garnier'',
                  ''Biotique'', ''Mamaearth'', ''Nykaa'', ''Sugar Cosmetics'']\<rparr>),
     (''Books'',
       \<lparr>items = [''Fiction Book'', ''Non-fiction Book'', ''Academic Book'',
                 ''Self-help Book'', ''Children's Book''],
        brands = [''Penguin'', ''Harper Collins'', ''Classmate'', ''Reynolds'', ''Parker'']\<rparr>),
     (''Sports'',
       \<lparr>items = [''Gym Equipment'', ''Sportswear'', ''Outdoor Gear'', ''Yoga Accessory''],
        brands = [''Nike'', ''Adidas'', ''Puma'', ''Reebok'', ''Decathlon'', ''Nivia'',
                  ''Cosco'']\<rparr>),
     (''Grocery'',
       \<lparr>items = [''Snack'', ''Beverage'', ''Organic Product'', ''Staple''],
        brands = [''Britannia'', ''Parle'', ''Nestle'', ''Amul'', ''Tata'', ''ITC'',
                  ''Patanjali'', ''Organic India'']\<rparr>)]"

definition AGE_PREFS :: "(string \<times> (string \<times> real) list) list" where
  "AGE_PREFS =
    [(''18-25'', [(''Electronics'', f64 0.30), (''Fashion'', f64 0.40), (''Beauty'', f64 0.20),
                  (''Books'', f64 0.10)]),
     (''26-35'', [(''Electronics'', f64 0.25), (''Fashion'', f64 0.30), (''Home'', f64 0.20),
                  (''Sports'', f64 0.15), (''Beauty'', f64 0.10)]),
     (''36-45'', [(''Home'', f64 0.35), (''Electronics'', f64 0.20), (''Fashion'', f64 0.20),
                  (''Grocery'', f64 0.15), (''Sports'', f64 0.10)]),
     (''46-60'', [(''Home'', f64 0.30), (''Grocery'', f64 0.25), (''Electronics'', f64 0.15),
                  (''Fashion'', f64 0.15), (''Books'', f64 0.15)]),
     (''60+'', [(''Grocery'', f64 0.40), (''Home'', f64 0.25), (''Books'', f64 0.20),
                (''Electronics'', f64 0.10), (''Beauty'', f64 0.05)])]"

definition GENDER_PREFS :: "(string \<times> (string \<times> real) list) list" where
  "GENDER_PREFS =
    [(''Male'', [(''Electronics'', f64 0.30), (''Sports'', f64 0.20), (''Fashion'', f64 0.25),
                 (''Home'', f64 0.15), (''Books'', f64 0.10)]),
     (''Female'', [(''Fashion'', f64 0.35), (''Beauty'', f64 0.25), (''Home'', f64 0.20),
                   (''Electronics'', f64 0.10), (''Books'', f64 0.10)])]"

subsection \<open>Helper functions\<close>

text \<open>
  \<open>weights[cat] += w\<close> on a \<open>defaultdict(float)\<close>: a present key keeps its place,
  a new key starts from 0.0 and goes to the end.
\<close>

fun add_weight :: "(string \<times> real) list \<Rightarrow> string \<Rightarrow> real \<Rightarrow> (string \<times> real) list" where
  "add_weight [] cat w = [(cat, fadd 0 w)]"
| "add_weight ((k, v) # kvs) cat w =
     (if k = cat then (k, fadd v w) # kvs else (k, v) # add_weight kvs cat w)"

text \<open>
  The dictionary \<open>weights\<close> of \<open>combined_category_weights\<close> after its three loops,
  before \<open>zip\<close> and the normalisation.
\<close>

definition smoothed_weights ::
  "(string \<times> real) list \<Rightarrow> (string \<times> real) list \<Rightarrow> (string \<times> real) list" where
  "smoothed_weights age_prefs gender_prefs =
     foldl (\<lambda>weights cat. add_weight weights cat (f64 0.001))
       (foldl (\<lambda>weights (cat, w). add_weight weights cat w)
         (foldl (\<lambda>weights (cat, w). add_weight weights cat w) [] age_prefs)
         gender_prefs)
       (keys CATEGORIES)"

definition combined_category_weights ::
  "string \<Rightarrow> string \<Rightarrow> py_error + (string list \<times> real list)" where
  "combined_category_weights age_band gender =
     (case lookup AGE_PREFS age_band of Inl e \<Rightarrow> Inl e | Inr age_prefs \<Rightarrow>
      (case lookup GENDER_PREFS gender of Inl e \<Rightarrow> Inl e | Inr gender_prefs \<Rightarrow>
       (let weights = smoothed_weights age_prefs gender_prefs;
            cats = keys weights; wts = vals weights;
            total = py_sum wts
        in if total = 0 then Inl ZeroDivisionError
           else Inr (cats, map (\<lambda>w. fdiv w total) wts))))"

definition choose_age_band :: "rng \<Rightarrow> py_error + ((string \<times> int) \<times> rng)" where
  "choose_age_band g =
     (case random_choices (keys AGE_BANDS) (map p (vals AGE_BANDS)) g of
        Inl e \<Rightarrow> Inl e
      | Inr (band, g1) \<Rightarrow>
     (case lookup AGE_BANDS band of
        Inl e \<Rightarrow> Inl e
      | Inr d \<Rightarrow>
     (case band_range d of (low, high) \<Rightarrow>
     (case random_randint low high g1 of
        Inl e \<Rightarrow> Inl e
      | Inr (age, g2) \<Rightarrow> Inr ((band, age), g2)))))"

definition choose_gender :: "rng \<Rightarrow> py_error + (string \<times> rng)" where
  "choose_gender g = random_choices (keys GENDERS) (vals GENDERS) g"

definition choose_tier_city_state :: "rng \<Rightarrow> py_error + ((string \<times> string \<times> string) \<times> rng)" where
  "choose_tier_city_state g =
     (case random_choices (keys TIERS) TIER_PROBS g of
        Inl e \<Rightarrow> Inl e
      | Inr (tier, g1) \<Rightarrow>
     (case random_randint 0 9 g1 of
        Inl e \<Rightarrow> Inl e
      | Inr (idx, g2) \<Rightarrow>
     (case lookup TIERS tier of
        Inl e \<Rightarrow> Inl e
      | Inr t \<Rightarrow>
          if nat idx < length (cities t) then
            if nat idx < length (states t) then
              Inr ((tier, cities t ! nat idx, states t ! nat idx), g2)
            else Inl IndexError
          else Inl IndexError)))"

definition choose_price :: "string \<Rightarrow> rng \<Rightarrow> py_error + (real \<times> rng)" where
  "choose_price tier g =
     (case lookup TIERS tier of
        Inl e \<Rightarrow> Inl e
      | Inr t \<Rightarrow>
     (case random_choices PRICE_BUCKETS (price_weights t) g of
        Inl e \<Rightarrow> Inl e
      | Inr (bucket, g1) \<Rightarrow>
     (case lookup PRICE_RANGES bucket of
        Inl e \<Rightarrow> Inl e
      | Inr (low, high) \<Rightarrow>
     (case random_uniform (of_int low) (of_int high) g1 of
        (x, g2) \<Rightarrow> Inr (py_round2 x, g2)))))"

subsection \<open>Formatting\<close>

text \<open>\<open>str(n)\<close> for a non-negative integer.\<close>

fun str_nat :: "nat \<Rightarrow> string" where
  "str_nat n =
     (if n < 10 then [''0123456789'' ! n]
      else str_nat (n div 10) @ [''0123456789'' ! (n mod 10)])"

declare str_nat.simps [simp del]

text \<open>The format specification \<open>06d\<close>: sign first, zeros up to six characters.\<close>

definition fmt_06d :: "int \<Rightarrow> string" where
  "fmt_06d i =
     (if i < 0 then
        (let s = str_nat (nat (- i)) in ''-'' @ replicate (5 - length s) (CHR ''0'') @ s)
      else
        (let s = str_nat (nat i) in replicate (6 - length s) (CHR ''0'') @ s))"

subsection \<open>Generation core\<close>

text \<open>A field of a CSV record, before \<open>csv.writer\<close> renders it.\<close>

datatype cell = CStr string | CInt int | CFloat real

text \<open>
  One pass through the body of the \<open>while\<close> loop of \<open>gen_user_row\<close>, on the loop's
  variables \<open>seen_products\<close>, \<open>rec_flat\<close> and the generator. The \<open>continue\<close>
  leaves the first two as they are.
\<close>

definition rec_body ::
  "string list \<Rightarrow> real list \<Rightarrow> string \<Rightarrow> string set \<times> cell list \<times> rng \<Rightarrow>
   py_error + (string set \<times> cell list \<times> rng)" where
  "rec_body cats weights tier st =
     (case st of (seen_products, rec_flat, g) \<Rightarrow>
     (case random_choices cats weights g of
        Inl e \<Rightarrow> Inl e
      | Inr (category, g1) \<Rightarrow>
     (case lookup CATEGORIES category of
        Inl e \<Rightarrow> Inl e
      | Inr c \<Rightarrow>
     (case random_choice (items c) g1 of
        Inl e \<Rightarrow> Inl e
      | Inr (item, g2) \<Rightarrow>
     (case random_choice (brands c) g2 of
        Inl e \<Rightarrow> Inl e
      | Inr (brand, g3) \<Rightarrow>
     (let product_name = brand @ '' '' @ item in
      if product_name \<in> seen_products then Inr (seen_products, rec_flat, g3)
      else
     (case choose_price tier g3 of
        Inl e \<Rightarrow> Inl e
      | Inr (price, g4) \<Rightarrow>
     (case random_uniform 0.1 1.0 g4 of (u, g5) \<Rightarrow>
        Inr (insert product_name seen_products,
             rec_flat @ [CStr product_name, CStr category, CStr brand,
                         CFloat price, CFloat (py_round2 u)],
             g5)))))))))"

text \<open>
  The \<open>while\<close> loop itself. It has no bound on its retries: a run that never leaves
  it is the value \<open>None\<close>.
\<close>

partial_function (option) rec_loop ::
  "string list \<Rightarrow> real list \<Rightarrow> string \<Rightarrow> string set \<times> cell list \<times> rng \<Rightarrow>
   (py_error + (string set \<times> cell list \<times> rng)) option" where
  "rec_loop cats weights tier st =
     (if card (fst st) < RECS_PER_USER then
        (case rec_body cats weights tier st of
           Inl e \<Rightarrow> Some (Inl e)
         | Inr st' \<Rightarrow> rec_loop cats weights tier st')
      else Some (Inr st))"

definition gen_user_row :: "int \<Rightarrow> rng \<Rightarrow> (py_error + (cell list \<times> rng)) option" where
  "gen_user_row idx g =
     (let user_id = ''USER_'' @ fmt_06d idx in
      case choose_age_band g of
        Inl e \<Rightarrow> Some (Inl e)
      | Inr ((age_band, age), g1) \<Rightarrow>
     (case choose_gender g1 of
        Inl e \<Rightarrow> Some (Inl e)
      | Inr (gender, g2) \<Rightarrow>
     (case choose_tier_city_state g2 of
        Inl e \<Rightarrow> Some (Inl e)
      | Inr ((tier, city, state), g3) \<Rightarrow>
     (case combined_category_weights age_band gender of
        Inl e \<Rightarrow> Some (Inl e)
      | Inr (cats, weights) \<Rightarrow>
     (case rec_loop cats weights tier ({}, [], g3) of
        None \<Rightarrow> None
      | Some (Inl e) \<Rightarrow> Some (Inl e)
      | Some (Inr (seen_products, rec_flat, g4)) \<Rightarrow>
          Some (Inr ([CStr user_id, CInt age, CStr gender, CStr state, CStr city,
                      CStr tier] @ rec_flat, g4)))))))"

definition build_header :: "string list" where
  "build_header =
     foldl (\<lambda>hdr i. hdr @ map (\<lambda>field. field @ ''_'' @ str_nat i)
                          [''product'', ''category'', ''brand'', ''price'',
                           ''recommendation_score''])
       [''user_id'', ''age'', ''gender'', ''state'', ''city'', ''tier'']
       [1..<RECS_PER_USER + 1]"

subsection \<open>Main entry\<close>

text \<open>
  The output file is the list of records \<open>csv.writer\<close> was given, one per
  \<open>writerow\<close>; \<open>csv.reader\<close> gives the records back with their field counts.
  Standard output is the list of messages printed.
\<close>

type_synonym csv_file = "cell list list"

datatype msg = Progress int | Finished int real string

datatype exit_status = Exit0 | SysExit string | Uncaught py_error

text \<open>
  The exit code of the process: \<open>sys.exit\<close> with a message prints it and exits
  with 1, as does an exception nobody catches.
\<close>

fun exit_code :: "exit_status \<Rightarrow> nat" where
  "exit_code Exit0 = 0"
| "exit_code (SysExit m) = 1"
| "exit_code (Uncaught e) = 1"

text \<open>
  The \<open>for\<close> loop of \<open>main\<close> over \<open>range(1, args.rows + 1)\<close>. An exception leaves
  the \<open>with\<close> block, which closes the file with what was written so far.
\<close>

fun write_rows ::
  "int list \<Rightarrow> csv_file \<Rightarrow> msg list \<Rightarrow> rng \<Rightarrow>
   (py_error option \<times> csv_file \<times> msg list \<times> rng) option" where
  "write_rows [] fh printed g = Some (None, fh, printed, g)"
| "write_rows (idx # idxs) fh printed g =
     (case gen_user_row idx g of
        None \<Rightarrow> None
      | Some (Inl e) \<Rightarrow> Some (Some e, fh, printed, g)
      | Some (Inr (row, g')) \<Rightarrow>
          write_rows idxs (fh @ [row])
            (if idx mod 10000 = 0 then printed @ [Progress idx] else printed) g')"

text \<open>The sanity check at the end of \<open>main\<close>, on the records read back.\<close>

definition sanity_check :: "csv_file \<Rightarrow> exit_status" where
  "sanity_check fh =
     (let expected_cols = length build_header in
      case fh of
        [] \<Rightarrow> Uncaught StopIteration
      | header # data \<Rightarrow>
     (case data of
        [] \<Rightarrow> Uncaught StopIteration
      | first_row # _ \<Rightarrow>
          if length first_row \<noteq> expected_cols then
            SysExit (''ERROR: expected '' @ str_nat expected_cols @ '' columns, got ''
                     @ str_nat (length first_row))
          else Exit0))"

record args =
  rows :: int
  out :: string

record run =
  files :: "string \<rightharpoonup> csv_file"
  stdout :: "msg list"
  status :: exit_status

text \<open>
  \<open>main\<close>, after argument parsing. Its inputs besides the arguments are the
  library's seeding function, the two readings of \<open>time.time()\<close> and the files
  that exist. The result is \<open>None\<close> when the run never ends.
\<close>

definition main ::
  "(int \<Rightarrow> rng) \<Rightarrow> args \<Rightarrow> real \<times> real \<Rightarrow> (string \<rightharpoonup> csv_file) \<Rightarrow> run option" where
  "main random_seed a clock fs =
     (let g = random_seed 42; start = fst clock in
      case write_rows [1..rows a] [map CStr build_header] [] g of
        None \<Rightarrow> None
      | Some (Some e, fh, printed, g') \<Rightarrow>
          Some \<lparr>files = fs(out a \<mapsto> fh), stdout = printed, status = Uncaught e\<rparr>
      | Some (None, fh, printed, g') \<Rightarrow>
          (let elapsed = snd clock - start;
               fs' = fs(out a \<mapsto> fh);
               printed' = printed @ [Finished (rows a) elapsed (out a)]
           in Some \<lparr>files = fs', stdout = printed',
                    status = (case fs' (out a) of
                                None \<Rightarrow> Uncaught (OSError (out a))
                              | Some fh' \<Rightarrow> sanity_check fh')\<rparr>))"

subsection \<open>Notions used in the statements\<close>

text \<open>
  The product names a category can yield: \<open>f"{brand} {item}"\<close> for each of its
  items and brands.
\<close>

definition product_names :: "category_cfg \<Rightarrow> string list" where
  "product_names c =
     concat (map (\<lambda>item. map (\<lambda>brand. brand @ '' '' @ item) (brands c)) (items c))"

text \<open>
  The weight of a category in an affinity table, 0 when the table does not list it,
  and the weight \<open>combined_category_weights\<close> is to give a category before it
  normalises: the age band's, plus the gender's, plus the smoothing constant.
\<close>

definition pref :: "(string \<times> real) list \<Rightarrow> string \<Rightarrow> real" where
  "pref prefs cat = (case map_of prefs cat of None \<Rightarrow> 0 | Some w \<Rightarrow> w)"

definition raw_weight :: "(string \<times> real) list \<Rightarrow> (string \<times> real) list \<Rightarrow> string \<Rightarrow> real" where
  "raw_weight age_prefs gender_prefs cat =
     fadd (fadd (pref age_prefs cat) (pref gender_prefs cat)) (f64 0.001)"

text \<open>
  What \<open>combined_category_weights\<close> returns for an age band and a gender.
\<close>

definition combiner_spec :: "string \<Rightarrow> string \<Rightarrow> bool" where
  "combiner_spec age_band gender \<longleftrightarrow>
     (\<exists>age_prefs gender_prefs cats wts.
        lookup AGE_PREFS age_band = Inr age_prefs \<and>
        lookup GENDER_PREFS gender = Inr gender_prefs \<and>
        combined_category_weights age_band gender = Inr (cats, wts) \<and>
        cats = keys (smoothed_weights age_prefs gender_prefs) \<and>
        vals (smoothed_weights age_prefs gender_prefs) =
          map (raw_weight age_prefs gender_prefs) cats \<and>
        length wts = length cats \<and> distinct cats \<and>
        set (keys CATEGORIES) \<subseteq> set cats \<and> set cats \<subseteq> set (keys CATEGORIES) \<and>
        (\<forall>cat \<in> set cats. 0.001 \<le> f64 0.001 \<and>
                          f64 0.001 \<le> raw_weight age_prefs gender_prefs cat) \<and>
        wts = map (\<lambda>cat. fdiv (raw_weight age_prefs gender_prefs cat)
                          (py_sum (map (raw_weight age_prefs gender_prefs) cats))) cats \<and>
        (\<forall>w \<in> set wts. 0 < w) \<and>
        \<bar>sum_list wts - 1\<bar> \<le> 1 / 2 ^ 52 \<and> \<bar>py_sum wts - 1\<bar> \<le> 1 / 2 ^ 52)"

text \<open>
  The first field of each block of five in \<open>rec_flat\<close>: the product names of a
  row's recommendations, in order.
\<close>

definition product_fields :: "cell list \<Rightarrow> cell list" where
  "product_fields rec_flat = map (\<lambda>i. rec_flat ! (5 * i)) [0..<length rec_flat div 5]"

text \<open>
  The invariant of the \<open>while\<close> loop of \<open>gen_user_row\<close>: \<open>rec_flat\<close> holds one
  block of five fields for each name in \<open>seen_products\<close>, in the order of their
  acceptance, and there are at most \<open>RECS_PER_USER\<close> of them.
\<close>

definition loop_inv :: "string set \<times> cell list \<times> rng \<Rightarrow> bool" where
  "loop_inv st =
     (case st of (seen_products, rec_flat, g) \<Rightarrow>
        \<exists>names. distinct names \<and> set names = seen_products \<and>
                length names \<le> RECS_PER_USER \<and>
                length rec_flat = 5 * length names \<and>
                product_fields rec_flat = map CStr names)"

text \<open>
  What the recommendation sampler needs of its arguments for every library call in
  it to succeed.
\<close>

definition sampler_ready :: "string list \<Rightarrow> real list \<Rightarrow> string \<Rightarrow> bool" where
  "sampler_ready cats weights tier \<longleftrightarrow>
     length weights = length cats \<and> cats \<noteq> [] \<and> 0 < last (accumulate 0 weights) \<and>
     set cats \<subseteq> set (keys CATEGORIES) \<and> tier \<in> set (keys TIERS)"



text \<open>
  A seeding function to run the program on: seed \<open>s\<close> gives the stream
  \<open>s, s, s, s, s, s, s + 1, \<dots>\<close>
\<close>

definition example_seed :: "int \<Rightarrow> rng" where
  "example_seed s i = nat s + i div 6"

section \<open>Properties of the library model\<close>

lemma bisect_right_bounds: "lo \<le> hi \<Longrightarrow> lo \<le> bisect_right a x lo hi \<and> bisect_right a x lo hi \<le> hi"
proof (induction a x lo hi rule: bisect_right.induct)
  case (1 a x lo hi)
  show ?case
  proof (cases "lo < hi")
    case False
    with 1 show ?thesis by (simp add: bisect_right.simps)
  next
    case True
    define mid where "mid = (lo + hi) div 2"
    have m: "lo \<le> mid" "mid < hi" using True by (auto simp: mid_def)
    show ?thesis
    proof (cases "x < a ! mid")
      case lt: True
      have "lo \<le> bisect_right a x lo mid \<and> bisect_right a x lo mid \<le> mid"
        using 1(1)[OF True mid_def lt] m by simp
      moreover have "bisect_right a x lo hi = bisect_right a x lo mid"
        using True lt by (subst bisect_right.simps) (simp add: mid_def Let_def)
      ultimately show ?thesis using m by simp
    next
      case ge: False
      have "mid + 1 \<le> bisect_right a x (mid + 1) hi \<and> bisect_right a x (mid + 1) hi \<le> hi"
        using 1(2)[OF True mid_def ge] m by simp
      moreover have "bisect_right a x lo hi = bisect_right a x (mid + 1) hi"
        using True ge by (subst bisect_right.simps) (simp add: mid_def Let_def)
      ultimately show ?thesis using m by simp
    qed
  qed
qed

lemma length_accumulate: "length (accumulate acc ws) = length ws"
  by (induction ws arbitrary: acc) auto

lemma random_choices_in:
  "random_choices population weights g = Inr (x, g') \<Longrightarrow> x \<in> set population"
proof -
  assume a: "random_choices population weights g = Inr (x, g')"
  let ?n = "length population"
  let ?cw = "accumulate 0 weights"
  from a have len: "length ?cw = ?n" and ne: "?cw \<noteq> []"
    by (auto simp: random_choices_def Let_def split: if_splits)
  then have pos: "0 < ?n" by (cases population) auto
  from a len ne have
    x: "x = population ! bisect_right ?cw (fst (random_random g) * last ?cw) 0 (?n - 1)"
    by (auto simp: random_choices_def Let_def split: if_splits prod.splits)
  have "bisect_right ?cw (fst (random_random g) * last ?cw) 0 (?n - 1) \<le> ?n - 1"
    using bisect_right_bounds[of 0 "?n - 1"] by simp
  with pos have "bisect_right ?cw (fst (random_random g) * last ?cw) 0 (?n - 1) < ?n"
    by linarith
  then show ?thesis unfolding x by (rule nth_mem)
qed

lemma random_choices_ok:
  assumes "length weights = length population" "population \<noteq> []"
    "0 < last (accumulate 0 weights)"
  shows "\<exists>x. random_choices population weights g = Inr (x, (\<lambda>i. g (Suc i))) \<and> x \<in> set population"
proof -
  have ne: "accumulate 0 weights \<noteq> []"
    using assms(1,2) length_accumulate[of 0 weights] by (metis length_0_conv)
  obtain x where x: "random_choices population weights g = Inr (x, (\<lambda>i. g (Suc i)))"
    using assms ne
    by (simp add: random_choices_def Let_def length_accumulate random_random_def)
  with random_choices_in[OF x] show ?thesis by blast
qed

lemma random_randint_ok:
  assumes "a \<le> b"
  shows "\<exists>r. random_randint a b g = Inr (r, (\<lambda>i. g (Suc i))) \<and> a \<le> r \<and> r \<le> b"
proof -
  have w: "0 < nat (b + 1 - a)" using assms by simp
  have "g 0 mod nat (b + 1 - a) < nat (b + 1 - a)" using w by simp
  then have "a + int (g 0 mod nat (b + 1 - a)) \<le> b" by linarith
  then show ?thesis using assms by (simp add: random_randint_def randbelow_def Let_def)
qed

lemma random_choice_ok:
  assumes "seq \<noteq> []"
  shows "\<exists>x. random_choice seq g = Inr (x, (\<lambda>i. g (Suc i))) \<and> x \<in> set seq"
  using assms by (simp add: random_choice_def randbelow_def)

lemma random_random_range:
  "0 \<le> fst (random_random g) \<and> fst (random_random g) < 1"
  by (simp add: random_random_def)

lemma random_uniform_range:
  assumes "a \<le> b"
  shows "a \<le> fst (random_uniform a b g) \<and> fst (random_uniform a b g) \<le> b"
proof -
  obtain u g' where u: "random_random g = (u, g')" by (cases "random_random g")
  with random_random_range[of g] have r: "0 \<le> u" "u < 1" by simp_all
  have "0 \<le> (b - a) * u" using assms r by simp
  moreover have "(b - a) * u \<le> (b - a) * 1"
    using assms r by (intro mult_left_mono) simp_all
  ultimately show ?thesis by (simp add: random_uniform_def u)
qed

lemma py_round2_cents: "\<exists>k::int. py_round2 x = of_int k / 100"
  unfolding py_round2_def Let_def by blast

lemma py_round2_range:
  assumes "of_int L / 100 \<le> x" "x \<le> of_int H / 100"
  shows "of_int L / 100 \<le> py_round2 x \<and> py_round2 x \<le> of_int H / 100"
proof -
  define y where "y = x * 100"
  define f where "f = \<lfloor>y\<rfloor>"
  have yl: "of_int L \<le> y" and yh: "y \<le> of_int H" using assms by (simp_all add: y_def field_simps)
  have fl: "L \<le> f" using yl by (simp add: f_def le_floor_iff)
  have fh: "f \<le> H" using yh unfolding f_def by (metis floor_mono floor_of_int)
  have up: "f + 1 \<le> H" if "0 < y - of_int f"
  proof -
    have "of_int f < y" using that by simp
    then have "(of_int f :: real) < of_int H" using yh by linarith
    then show ?thesis by simp
  qed
  define r where "r = (if y - of_int f < 1 / 2 then f else if 1 / 2 < y - of_int f then f + 1
              else if even f then f else f + 1)"
  have "L \<le> r \<and> r \<le> H"
    using fl fh up unfolding r_def by (auto split: if_splits)
  moreover have "py_round2 x = of_int r / 100"
    by (simp add: py_round2_def Let_def y_def f_def r_def)
  ultimately show ?thesis by (simp add: divide_right_mono)
qed



lemma keys_simps: "keys [] = []" "keys (kv # d) = fst kv # keys d"
  by (simp_all add: keys_def)

lemma vals_simps: "vals [] = []" "vals (kv # d) = snd kv # vals d"
  by (simp_all add: vals_def)

lemma keys_AGE_BANDS: "keys AGE_BANDS = [''18-25'', ''26-35'', ''36-45'', ''46-60'', ''60+'']"
  by (simp add: keys_def AGE_BANDS_def)

lemma keys_GENDERS: "keys GENDERS = [''Male'', ''Female'']"
  by (simp add: keys_def GENDERS_def)

lemma keys_TIERS: "keys TIERS = [''Tier1'', ''Tier2'', ''Tier3'']"
  by (simp add: keys_def TIERS_def)

lemma keys_CATEGORIES:
  "keys CATEGORIES = [''Electronics'', ''Fashion'', ''Home'', ''Beauty'', ''Books'', ''Sports'', ''Grocery'']"
  by (simp add: keys_def CATEGORIES_def)

lemma accumulate_Nil_iff: "accumulate acc ws = [] \<longleftrightarrow> ws = []"
  by (cases ws) auto

lemma last_accumulate: "ws \<noteq> [] \<Longrightarrow> last (accumulate acc ws) = acc + sum_list ws"
  by (induction ws arbitrary: acc) (auto simp: add.assoc accumulate_Nil_iff)

section \<open>The static configuration\<close>

lemma card_ge_take:
  assumes "distinct (take n xs)" "n \<le> length xs"
  shows "n \<le> card (set xs)"
proof -
  have "card (set (take n xs)) = n" using assms by (simp add: distinct_card)
  moreover have "card (set (take n xs)) \<le> card (set xs)"
    by (intro card_mono) (auto dest: in_set_takeD)
  ultimately show ?thesis by simp
qed

lemma first_ten_names_distinct:
  "(name, c) \<in> set CATEGORIES \<Longrightarrow>
     distinct (take 10 (product_names c)) \<and> 10 \<le> length (product_names c)"
  unfolding CATEGORIES_def
  by (auto simp: product_names_def)

text \<open>
  C8: every category of \<open>CATEGORIES\<close> yields at least \<open>RECS_PER_USER\<close> = 10
  different product names (brand and item combinations), the sizing the retry loop
  of \<open>gen_user_row\<close> relies on.
\<close>

theorem catalog_sizing:
  "\<forall>(name, c) \<in> set CATEGORIES. RECS_PER_USER \<le> card (set (product_names c))"
  using first_ten_names_distinct card_ge_take by (fastforce simp: RECS_PER_USER_def)

theorem catalog_sizing_witness:
  "CATEGORIES ! 4 \<in> set CATEGORIES \<and> fst (CATEGORIES ! 4) = ''Books'' \<and>
   RECS_PER_USER \<le> card (set (product_names (snd (CATEGORIES ! 4))))"
proof -
  have m: "CATEGORIES ! 4 \<in> set CATEGORIES" by (simp add: CATEGORIES_def)
  have n: "fst (CATEGORIES ! 4) = ''Books''" by (simp add: CATEGORIES_def)
  from catalog_sizing m have "case CATEGORIES ! 4 of (name, c) \<Rightarrow>
      RECS_PER_USER \<le> card (set (product_names c))"
    by (rule bspec)
  then show ?thesis using m n by (simp add: case_prod_unfold)
qed

section \<open>The attribute sampler and the affinity combiner\<close>

lemmas f64_eval = f64_def fadd_def fdiv_def py_sum_def ilog2_def pow2_def
  round_half_even_def bit_length.simps

text \<open>
  The affinity tables as doubles, and the combiner on each configured pair of age
  band and gender, operation by operation in double precision.
\<close>

lemma AGE_PREFS_values:
  "AGE_PREFS =
    [(''18-25'', [(''Electronics'', 5404319552844595 / 18014398509481984), (''Fashion'',
     3602879701896397 / 9007199254740992), (''Beauty'', 3602879701896397 /
     18014398509481984), (''Books'', 3602879701896397 / 36028797018963968)]),
     (''26-35'', [(''Electronics'', 1 / 4), (''Fashion'', 5404319552844595 /
     18014398509481984), (''Home'', 3602879701896397 / 18014398509481984), (''Sports'',
     5404319552844595 / 36028797018963968), (''Beauty'', 3602879701896397 /
     36028797018963968)]),
     (''36-45'', [(''Home'', 3152519739159347 / 9007199254740992), (''Electronics'',
     3602879701896397 / 18014398509481984), (''Fashion'', 3602879701896397 /
     18014398509481984), (''Grocery'', 5404319552844595 / 36028797018963968), (''Sports'',
     3602879701896397 / 36028797018963968)]),
     (''46-60'', [(''Home'', 5404319552844595 / 18014398509481984), (''Grocery'', 1 / 4),
     (''Electronics'', 5404319552844595 / 36028797018963968), (''Fashion'', 5404319552844595
     / 36028797018963968), (''Books'', 5404319552844595 / 36028797018963968)]),
     (''60+'', [(''Grocery'', 3602879701896397 / 9007199254740992), (''Home'', 1 / 4),
     (''Books'', 3602879701896397 / 18014398509481984), (''Electronics'', 3602879701896397 /
     36028797018963968), (''Beauty'', 3602879701896397 / 72057594037927936)])]"
  by (simp add: AGE_PREFS_def f64_eval)

lemma GENDER_PREFS_values:
  "GENDER_PREFS =
    [(''Male'', [(''Electronics'', 5404319552844595 / 18014398509481984), (''Sports'',
     3602879701896397 / 18014398509481984), (''Fashion'', 1 / 4), (''Home'',
     5404319552844595 / 36028797018963968), (''Books'', 3602879701896397 /
     36028797018963968)]),
     (''Female'', [(''Fashion'', 3152519739159347 / 9007199254740992), (''Beauty'', 1 / 4),
     (''Home'', 3602879701896397 / 18014398509481984), (''Electronics'', 3602879701896397 /
     36028797018963968), (''Books'', 3602879701896397 / 36028797018963968)])]"
  by (simp add: GENDER_PREFS_def f64_eval)

lemma combiner_from_parts:
  assumes "lookup AGE_PREFS b = Inr ap" and "lookup GENDER_PREFS g = Inr gp"
    and "smoothed_weights ap gp = sw" and "keys sw = cats" and "vals sw = raw"
    and "py_sum raw = t" and "t \<noteq> 0" and "map (\<lambda>w. fdiv w t) raw = wts"
  shows "combined_category_weights b g = Inr (cats, wts)"
  using assms by (simp add: combined_category_weights_def Let_def)

lemma combiner_spec_from_values:
  assumes ap: "lookup AGE_PREFS b = Inr ap" and gp: "lookup GENDER_PREFS g = Inr gp"
    and sw: "smoothed_weights ap gp = sw" and k: "keys sw = cats" and v: "vals sw = raw"
    and raw: "map (raw_weight ap gp) cats = raw"
    and ccw: "combined_category_weights b g = Inr (cats, wts)"
    and d: "distinct cats" "set (keys CATEGORIES) \<subseteq> set cats"
      "set cats \<subseteq> set (keys CATEGORIES)"
    and low: "list_all (\<lambda>w. f64 0.001 \<le> w) raw"
    and pos: "list_all (\<lambda>w. 0 < w) wts"
    and s: "\<bar>sum_list wts - 1\<bar> \<le> 1 / 2 ^ 52" "\<bar>py_sum wts - 1\<bar> \<le> 1 / 2 ^ 52"
  shows "combiner_spec b g"
proof -
  let ?r = "raw_weight ap gp"
  have w: "wts = map (\<lambda>w. fdiv w (py_sum raw)) raw"
    using ccw ap gp sw k v
    by (simp add: combined_category_weights_def Let_def split: if_splits)
  have "wts = map (\<lambda>w. fdiv w (py_sum raw)) (map ?r cats)"
    using w raw by simp
  then have "wts = map (\<lambda>cat. fdiv (?r cat) (py_sum raw)) cats"
    by (simp add: comp_def)
  then have tie: "wts = map (\<lambda>cat. fdiv (?r cat) (py_sum (map ?r cats))) cats"
    by (simp add: raw)
  have len: "length wts = length cats"
    using tie by (metis length_map)
  have "(0.001::real) \<le> f64 0.001" by (simp add: f64_eval)
  then have lo: "\<forall>cat \<in> set cats. 0.001 \<le> f64 0.001 \<and> f64 0.001 \<le> ?r cat"
    using low raw by (auto simp: list_all_iff)
  have po: "\<forall>w \<in> set wts. 0 < w"
    using pos by (simp add: list_all_iff)
  have c: "cats = keys (smoothed_weights ap gp)" using sw k by simp
  have vr: "vals (smoothed_weights ap gp) = map ?r cats" using sw v raw by simp
  show ?thesis
    unfolding combiner_spec_def
    using ap gp ccw c vr len d lo tie po s
    by (intro exI[of _ ap] exI[of _ gp] exI[of _ cats] exI[of _ wts] conjI)
qed

lemma combiner_18_25_Male:
  shows "combined_category_weights ''18-25'' ''Male'' =
     Inr ([''Electronics'', ''Fashion'', ''Beauty'', ''Books'', ''Sports'', ''Home'',
       ''Grocery''],
       [5394446190432821 / 18014398509481984, 2921617695483999 / 9007199254740992,
       3608265172302819 / 36028797018963968, 3608265172302819 / 36028797018963968,
       3608265172302819 / 36028797018963968, 5421373542464931 / 72057594037927936,
       4595601413480207 / 9223372036854775808])"
    (is "_ = Inr (?cats, ?wts)")
    and "combiner_spec ''18-25'' ''Male''"
proof -
  let ?ap = "[(''Electronics'', 5404319552844595 / 18014398509481984), (''Fashion'',
          3602879701896397 / 9007199254740992), (''Beauty'', 3602879701896397 /
          18014398509481984), (''Books'', 3602879701896397 / 36028797018963968)]"
  let ?gp = "[(''Electronics'', 5404319552844595 / 18014398509481984), (''Sports'',
          3602879701896397 / 18014398509481984), (''Fashion'', 1 / 4), (''Home'',
          5404319552844595 / 36028797018963968), (''Books'', 3602879701896397 /
          36028797018963968)]"
  let ?sw = "[(''Electronics'', 676665844012417 / 1125899906842624), (''Fashion'',
          2931843357418193 / 4503599627370496), (''Beauty'', 3620894100405879 /
          18014398509481984), (''Books'', 3620894100405879 / 18014398509481984),
          (''Sports'', 3620894100405879 / 18014398509481984), (''Home'', 5440348349863559 /
          36028797018963968), (''Grocery'', 1152921504606847 / 1152921504606846976)]"
  let ?raw = "[676665844012417 / 1125899906842624, 2931843357418193 / 4503599627370496,
          3620894100405879 / 18014398509481984, 3620894100405879 / 18014398509481984,
          3620894100405879 / 18014398509481984, 5440348349863559 / 36028797018963968,
          1152921504606847 / 1152921504606846976]"
  have ap: "lookup AGE_PREFS ''18-25'' = Inr ?ap"
    by (simp add: lookup_def AGE_PREFS_values)
  have gp: "lookup GENDER_PREFS ''Male'' = Inr ?gp"
    by (simp add: lookup_def GENDER_PREFS_values)
  have sw: "smoothed_weights ?ap ?gp = ?sw"
    by (simp add: smoothed_weights_def keys_CATEGORIES f64_eval)
  have raw: "map (raw_weight ?ap ?gp) ?cats = ?raw"
    by (simp add: raw_weight_def pref_def f64_eval)
  have k: "keys ?sw = ?cats"
    by (simp add: keys_simps)
  have v: "vals ?sw = ?raw"
    by (simp add: vals_simps)
  have total: "py_sum ?raw = 4519362226066293 / 2251799813685248"
    by (simp add: f64_eval)
  have quot: "map (\<lambda>w. fdiv w (4519362226066293 / 2251799813685248)) ?raw = ?wts"
    by (simp add: f64_eval)
  show ccw: "combined_category_weights ''18-25'' ''Male'' = Inr (?cats, ?wts)"
    by (rule combiner_from_parts[OF ap gp sw k v total _ quot]) simp
  have ps: "py_sum ?wts = 1"
    by (simp add: f64_eval)
  show "combiner_spec ''18-25'' ''Male''"
  proof (rule combiner_spec_from_values[OF ap gp sw k v raw ccw])
    show "\<bar>py_sum ?wts - 1\<bar> \<le> 1 / 2 ^ 52"
      unfolding ps by simp
  qed (simp_all add: keys_CATEGORIES f64_eval)
qed

lemma combiner_18_25_Female:
  shows "combined_category_weights ''18-25'' ''Female'' =
     Inr ([''Electronics'', ''Fashion'', ''Beauty'', ''Books'', ''Home'', ''Sports'',
       ''Grocery''],
       [7198578776584231 / 36028797018963968, 3370406896019175 / 9007199254740992,
       8096157177654583 / 36028797018963968, 3608265172302819 / 36028797018963968,
       3608265172302819 / 36028797018963968, 4595601413480207 / 9223372036854775808,
       4595601413480207 / 9223372036854775808])"
    (is "_ = Inr (?cats, ?wts)")
    and "combiner_spec ''18-25'' ''Female''"
proof -
  let ?ap = "[(''Electronics'', 5404319552844595 / 18014398509481984), (''Fashion'',
          3602879701896397 / 9007199254740992), (''Beauty'', 3602879701896397 /
          18014398509481984), (''Books'', 3602879701896397 / 36028797018963968)]"
  let ?gp = "[(''Fashion'', 3152519739159347 / 9007199254740992), (''Beauty'', 1 / 4),
          (''Home'', 3602879701896397 / 18014398509481984), (''Electronics'',
          3602879701896397 / 36028797018963968), (''Books'', 3602879701896397 /
          36028797018963968)]"
  let ?sw = "[(''Electronics'', 1805943450575569 / 4503599627370496), (''Fashion'',
          6764406640310485 / 9007199254740992), (''Beauty'', 8124493727776375 /
          18014398509481984), (''Books'', 3620894100405879 / 18014398509481984), (''Home'',
          3620894100405879 / 18014398509481984), (''Sports'', 1152921504606847 /
          1152921504606846976), (''Grocery'', 1152921504606847 / 1152921504606846976)]"
  let ?raw = "[1805943450575569 / 4503599627370496, 6764406640310485 / 9007199254740992,
          8124493727776375 / 18014398509481984, 3620894100405879 / 18014398509481984,
          3620894100405879 / 18014398509481984, 1152921504606847 / 1152921504606846976,
          1152921504606847 / 1152921504606846976]"
  have ap: "lookup AGE_PREFS ''18-25'' = Inr ?ap"
    by (simp add: lookup_def AGE_PREFS_values)
  have gp: "lookup GENDER_PREFS ''Female'' = Inr ?gp"
    by (simp add: lookup_def GENDER_PREFS_values)
  have sw: "smoothed_weights ?ap ?gp = ?sw"
    by (simp add: smoothed_weights_def keys_CATEGORIES f64_eval)
  have raw: "map (raw_weight ?ap ?gp) ?cats = ?raw"
    by (simp add: raw_weight_def pref_def f64_eval)
  have k: "keys ?sw = ?cats"
    by (simp add: keys_simps)
  have v: "vals ?sw = ?raw"
    by (simp add: vals_simps)
  have total: "py_sum ?raw = 4519362226066293 / 2251799813685248"
    by (simp add: f64_eval)
  have quot: "map (\<lambda>w. fdiv w (4519362226066293 / 2251799813685248)) ?raw = ?wts"
    by (simp add: f64_eval)
  show ccw: "combined_category_weights ''18-25'' ''Female'' = Inr (?cats, ?wts)"
    by (rule combiner_from_parts[OF ap gp sw k v total _ quot]) simp
  have ps: "py_sum ?wts = 1"
    by (simp add: f64_eval)
  show "combiner_spec ''18-25'' ''Female''"
  proof (rule combiner_spec_from_values[OF ap gp sw k v raw ccw])
    show "\<bar>py_sum ?wts - 1\<bar> \<le> 1 / 2 ^ 52"
      unfolding ps by simp
  qed (simp_all add: keys_CATEGORIES f64_eval)
qed

lemma combiner_26_35_Male:
  shows "combined_category_weights ''26-35'' ''Male'' =
     Inr ([''Electronics'', ''Fashion'', ''Home'', ''Sports'', ''Beauty'', ''Books'',
       ''Grocery''],
       [4945656989897645 / 18014398509481984, 4945656989897645 / 18014398509481984,
       6301000375513877 / 36028797018963968, 6301000375513877 / 36028797018963968,
       1813108370162113 / 36028797018963968, 1813108370162113 / 36028797018963968,
       4595601413480207 / 9223372036854775808])"
    (is "_ = Inr (?cats, ?wts)")
    and "combiner_spec ''26-35'' ''Male''"
proof -
  let ?ap = "[(''Electronics'', 1 / 4), (''Fashion'', 5404319552844595 / 18014398509481984),
          (''Home'', 3602879701896397 / 18014398509481984), (''Sports'', 5404319552844595 /
          36028797018963968), (''Beauty'', 3602879701896397 / 36028797018963968)]"
  let ?gp = "[(''Electronics'', 5404319552844595 / 18014398509481984), (''Sports'',
          3602879701896397 / 18014398509481984), (''Fashion'', 1 / 4), (''Home'',
          5404319552844595 / 36028797018963968), (''Books'', 3602879701896397 /
          36028797018963968)]"
  let ?sw = "[(''Electronics'', 4962966789362287 / 9007199254740992), (''Fashion'',
          4962966789362287 / 9007199254740992), (''Home'', 395190867301761 /
          1125899906842624), (''Sports'', 395190867301761 / 1125899906842624), (''Beauty'',
          3638908498915361 / 36028797018963968), (''Books'', 3638908498915361 /
          36028797018963968), (''Grocery'', 1152921504606847 / 1152921504606846976)]"
  let ?raw = "[4962966789362287 / 9007199254740992, 4962966789362287 / 9007199254740992,
          395190867301761 / 1125899906842624, 395190867301761 / 1125899906842624,
          3638908498915361 / 36028797018963968, 3638908498915361 / 36028797018963968,
          1152921504606847 / 1152921504606846976]"
  have ap: "lookup AGE_PREFS ''26-35'' = Inr ?ap"
    by (simp add: lookup_def AGE_PREFS_values)
  have gp: "lookup GENDER_PREFS ''Male'' = Inr ?gp"
    by (simp add: lookup_def GENDER_PREFS_values)
  have sw: "smoothed_weights ?ap ?gp = ?sw"
    by (simp add: smoothed_weights_def keys_CATEGORIES f64_eval)
  have raw: "map (raw_weight ?ap ?gp) ?cats = ?raw"
    by (simp add: raw_weight_def pref_def f64_eval)
  have k: "keys ?sw = ?cats"
    by (simp add: keys_simps)
  have v: "vals ?sw = ?raw"
    by (simp add: vals_simps)
  have total: "py_sum ?raw = 4519362226066293 / 2251799813685248"
    by (simp add: f64_eval)
  have quot: "map (\<lambda>w. fdiv w (4519362226066293 / 2251799813685248)) ?raw = ?wts"
    by (simp add: f64_eval)
  show ccw: "combined_category_weights ''26-35'' ''Male'' = Inr (?cats, ?wts)"
    by (rule combiner_from_parts[OF ap gp sw k v total _ quot]) simp
  have ps: "py_sum ?wts = 9007199254740991 / 9007199254740992"
    by (simp add: f64_eval)
  show "combiner_spec ''26-35'' ''Male''"
  proof (rule combiner_spec_from_values[OF ap gp sw k v raw ccw])
    show "\<bar>py_sum ?wts - 1\<bar> \<le> 1 / 2 ^ 52"
      unfolding ps by simp
  qed (simp_all add: keys_CATEGORIES f64_eval)
qed

lemma combiner_26_35_Female:
  shows "combined_category_weights ''26-35'' ''Female'' =
     Inr ([''Electronics'', ''Fashion'', ''Home'', ''Sports'', ''Beauty'', ''Books'',
       ''Grocery''],
       [3150500187756939 / 18014398509481984, 2921617695483999 / 9007199254740992,
       899822347073029 / 4503599627370496, 5421373542464933 / 72057594037927936,
       3150500187756939 / 18014398509481984, 3626216740324227 / 72057594037927936,
       287225088342513 / 576460752303423488])"
    (is "_ = Inr (?cats, ?wts)")
    and "combiner_spec ''26-35'' ''Female''"
proof -
  let ?ap = "[(''Electronics'', 1 / 4), (''Fashion'', 5404319552844595 / 18014398509481984),
          (''Home'', 3602879701896397 / 18014398509481984), (''Sports'', 5404319552844595 /
          36028797018963968), (''Beauty'', 3602879701896397 / 36028797018963968)]"
  let ?gp = "[(''Fashion'', 3152519739159347 / 9007199254740992), (''Beauty'', 1 / 4),
          (''Home'', 3602879701896397 / 18014398509481984), (''Electronics'',
          3602879701896397 / 36028797018963968), (''Books'', 3602879701896397 /
          36028797018963968)]"
  let ?sw = "[(''Electronics'', 395190867301761 / 1125899906842624), (''Fashion'',
          5863686714836385 / 9007199254740992), (''Home'', 1805943450575569 /
          4503599627370496), (''Sports'', 5440348349863559 / 36028797018963968),
          (''Beauty'', 395190867301761 / 1125899906842624), (''Books'', 3638908498915361 /
          36028797018963968), (''Grocery'', 1152921504606847 / 1152921504606846976)]"
  let ?raw = "[395190867301761 / 1125899906842624, 5863686714836385 / 9007199254740992,
          1805943450575569 / 4503599627370496, 5440348349863559 / 36028797018963968,
          395190867301761 / 1125899906842624, 3638908498915361 / 36028797018963968,
          1152921504606847 / 1152921504606846976]"
  have ap: "lookup AGE_PREFS ''26-35'' = Inr ?ap"
    by (simp add: lookup_def AGE_PREFS_values)
  have gp: "lookup GENDER_PREFS ''Female'' = Inr ?gp"
    by (simp add: lookup_def GENDER_PREFS_values)
  have sw: "smoothed_weights ?ap ?gp = ?sw"
    by (simp add: smoothed_weights_def keys_CATEGORIES f64_eval)
  have raw: "map (raw_weight ?ap ?gp) ?cats = ?raw"
    by (simp add: raw_weight_def pref_def f64_eval)
  have k: "keys ?sw = ?cats"
    by (simp add: keys_simps)
  have v: "vals ?sw = ?raw"
    by (simp add: vals_simps)
  have total: "py_sum ?raw = 1129840556516573 / 562949953421312"
    by (simp add: f64_eval)
  have quot: "map (\<lambda>w. fdiv w (1129840556516573 / 562949953421312)) ?raw = ?wts"
    by (simp add: f64_eval)
  show ccw: "combined_category_weights ''26-35'' ''Female'' = Inr (?cats, ?wts)"
    by (rule combiner_from_parts[OF ap gp sw k v total _ quot]) simp
  have ps: "py_sum ?wts = 1"
    by (simp add: f64_eval)
  show "combiner_spec ''26-35'' ''Female''"
  proof (rule combiner_spec_from_values[OF ap gp sw k v raw ccw])
    show "\<bar>py_sum ?wts - 1\<bar> \<le> 1 / 2 ^ 52"
      unfolding ps by simp
  qed (simp_all add: keys_CATEGORIES f64_eval)
qed

lemma combiner_36_45_Male:
  shows "combined_category_weights ''36-45'' ''Male'' =
     Inr ([''Home'', ''Electronics'', ''Fashion'', ''Grocery'', ''Sports'', ''Books'',
       ''Beauty''],
       [1124216947340617 / 4503599627370496, 1124216947340617 / 4503599627370496,
       8096157177654583 / 36028797018963968, 5421373542464931 / 72057594037927936,
       5403421974443525 / 36028797018963968, 1813108370162113 / 36028797018963968,
       4595601413480207 / 9223372036854775808])"
    (is "_ = Inr (?cats, ?wts)")
    and "combiner_spec ''36-45'' ''Male''"
proof -
  let ?ap = "[(''Home'', 3152519739159347 / 9007199254740992), (''Electronics'',
          3602879701896397 / 18014398509481984), (''Fashion'', 3602879701896397 /
          18014398509481984), (''Grocery'', 5404319552844595 / 36028797018963968),
          (''Sports'', 3602879701896397 / 36028797018963968)]"
  let ?gp = "[(''Electronics'', 5404319552844595 / 18014398509481984), (''Sports'',
          3602879701896397 / 18014398509481984), (''Fashion'', 1 / 4), (''Home'',
          5404319552844595 / 36028797018963968), (''Books'', 3602879701896397 /
          36028797018963968)]"
  let ?sw = "[(''Home'', 4512606826625237 / 9007199254740992), (''Electronics'',
          4512606826625237 / 9007199254740992), (''Fashion'', 8124493727776375 /
          18014398509481984), (''Grocery'', 5440348349863559 / 36028797018963968),
          (''Sports'', 2711166975677039 / 9007199254740992), (''Books'', 3638908498915361 /
          36028797018963968), (''Beauty'', 1152921504606847 / 1152921504606846976)]"
  let ?raw = "[4512606826625237 / 9007199254740992, 4512606826625237 / 9007199254740992,
          8124493727776375 / 18014398509481984, 5440348349863559 / 36028797018963968,
          2711166975677039 / 9007199254740992, 3638908498915361 / 36028797018963968,
          1152921504606847 / 1152921504606846976]"
  have ap: "lookup AGE_PREFS ''36-45'' = Inr ?ap"
    by (simp add: lookup_def AGE_PREFS_values)
  have gp: "lookup GENDER_PREFS ''Male'' = Inr ?gp"
    by (simp add: lookup_def GENDER_PREFS_values)
  have sw: "smoothed_weights ?ap ?gp = ?sw"
    by (simp add: smoothed_weights_def keys_CATEGORIES f64_eval)
  have raw: "map (raw_weight ?ap ?gp) ?cats = ?raw"
    by (simp add: raw_weight_def pref_def f64_eval)
  have k: "keys ?sw = ?cats"
    by (simp add: keys_simps)
  have v: "vals ?sw = ?raw"
    by (simp add: vals_simps)
  have total: "py_sum ?raw = 4519362226066293 / 2251799813685248"
    by (simp add: f64_eval)
  have quot: "map (\<lambda>w. fdiv w (4519362226066293 / 2251799813685248)) ?raw = ?wts"
    by (simp add: f64_eval)
  show ccw: "combined_category_weights ''36-45'' ''Male'' = Inr (?cats, ?wts)"
    by (rule combiner_from_parts[OF ap gp sw k v total _ quot]) simp
  have ps: "py_sum ?wts = 9007199254740991 / 9007199254740992"
    by (simp add: f64_eval)
  show "combiner_spec ''36-45'' ''Male''"
  proof (rule combiner_spec_from_values[OF ap gp sw k v raw ccw])
    show "\<bar>py_sum ?wts - 1\<bar> \<le> 1 / 2 ^ 52"
      unfolding ps by simp
  qed (simp_all add: keys_CATEGORIES f64_eval)
qed

lemma combiner_36_45_Female:
  shows "combined_category_weights ''36-45'' ''Female'' =
     Inr ([''Home'', ''Electronics'', ''Fashion'', ''Grocery'', ''Sports'', ''Beauty'',
       ''Books''],
       [4945656989897645 / 18014398509481984, 5403421974443525 / 36028797018963968,
       4945656989897645 / 18014398509481984, 5421373542464931 / 72057594037927936,
       1813108370162113 / 36028797018963968, 1126460893343293 / 9007199254740992,
       1813108370162113 / 36028797018963968])"
    (is "_ = Inr (?cats, ?wts)")
    and "combiner_spec ''36-45'' ''Female''"
proof -
  let ?ap = "[(''Home'', 3152519739159347 / 9007199254740992), (''Electronics'',
          3602879701896397 / 18014398509481984), (''Fashion'', 3602879701896397 /
          18014398509481984), (''Grocery'', 5404319552844595 / 36028797018963968),
          (''Sports'', 3602879701896397 / 36028797018963968)]"
  let ?gp = "[(''Fashion'', 3152519739159347 / 9007199254740992), (''Beauty'', 1 / 4),
          (''Home'', 3602879701896397 / 18014398509481984), (''Electronics'',
          3602879701896397 / 36028797018963968), (''Books'', 3602879701896397 /
          36028797018963968)]"
  let ?sw = "[(''Home'', 4962966789362287 / 9007199254740992), (''Electronics'',
          2711166975677039 / 9007199254740992), (''Fashion'', 4962966789362287 /
          9007199254740992), (''Grocery'', 5440348349863559 / 36028797018963968),
          (''Sports'', 3638908498915361 / 36028797018963968), (''Beauty'', 2260807012939989
          / 9007199254740992), (''Books'', 3638908498915361 / 36028797018963968)]"
  let ?raw = "[4962966789362287 / 9007199254740992, 2711166975677039 / 9007199254740992,
          4962966789362287 / 9007199254740992, 5440348349863559 / 36028797018963968,
          3638908498915361 / 36028797018963968, 2260807012939989 / 9007199254740992,
          3638908498915361 / 36028797018963968]"
  have ap: "lookup AGE_PREFS ''36-45'' = Inr ?ap"
    by (simp add: lookup_def AGE_PREFS_values)
  have gp: "lookup GENDER_PREFS ''Female'' = Inr ?gp"
    by (simp add: lookup_def GENDER_PREFS_values)
  have sw: "smoothed_weights ?ap ?gp = ?sw"
    by (simp add: smoothed_weights_def keys_CATEGORIES f64_eval)
  have raw: "map (raw_weight ?ap ?gp) ?cats = ?raw"
    by (simp add: raw_weight_def pref_def f64_eval)
  have k: "keys ?sw = ?cats"
    by (simp add: keys_simps)
  have v: "vals ?sw = ?raw"
    by (simp add: vals_simps)
  have total: "py_sum ?raw = 4519362226066293 / 2251799813685248"
    by (simp add: f64_eval)
  have quot: "map (\<lambda>w. fdiv w (4519362226066293 / 2251799813685248)) ?raw = ?wts"
    by (simp add: f64_eval)
  show ccw: "combined_category_weights ''36-45'' ''Female'' = Inr (?cats, ?wts)"
    by (rule combiner_from_parts[OF ap gp sw k v total _ quot]) simp
  have ps: "py_sum ?wts = 9007199254740991 / 9007199254740992"
    by (simp add: f64_eval)
  show "combiner_spec ''36-45'' ''Female''"
  proof (rule combiner_spec_from_values[OF ap gp sw k v raw ccw])
    show "\<bar>py_sum ?wts - 1\<bar> \<le> 1 / 2 ^ 52"
      unfolding ps by simp
  qed (simp_all add: keys_CATEGORIES f64_eval)
qed

lemma combiner_46_60_Male:
  shows "combined_category_weights ''46-60'' ''Male'' =
     Inr ([''Home'', ''Grocery'', ''Electronics'', ''Fashion'', ''Books'', ''Sports'',
       ''Beauty''],
       [4048078588827291 / 18014398509481984, 1126460893343293 / 9007199254740992,
       4048078588827291 / 18014398509481984, 7198578776584231 / 36028797018963968,
       1126460893343293 / 9007199254740992, 3608265172302819 / 36028797018963968,
       4595601413480207 / 9223372036854775808])"
    (is "_ = Inr (?cats, ?wts)")
    and "combiner_spec ''46-60'' ''Male''"
proof -
  let ?ap = "[(''Home'', 5404319552844595 / 18014398509481984), (''Grocery'', 1 / 4),
          (''Electronics'', 5404319552844595 / 36028797018963968), (''Fashion'',
          5404319552844595 / 36028797018963968), (''Books'', 5404319552844595 /
          36028797018963968)]"
  let ?gp = "[(''Electronics'', 5404319552844595 / 18014398509481984), (''Sports'',
          3602879701896397 / 18014398509481984), (''Fashion'', 1 / 4), (''Home'',
          5404319552844595 / 36028797018963968), (''Books'', 3602879701896397 /
          36028797018963968)]"
  let ?sw = "[(''Home'', 4062246863888187 / 9007199254740992), (''Grocery'', 2260807012939989 /
          9007199254740992), (''Electronics'', 4062246863888187 / 9007199254740992),
          (''Fashion'', 1805943450575569 / 4503599627370496), (''Books'', 2260807012939989 /
          9007199254740992), (''Sports'', 3620894100405879 / 18014398509481984),
          (''Beauty'', 1152921504606847 / 1152921504606846976)]"
  let ?raw = "[4062246863888187 / 9007199254740992, 2260807012939989 / 9007199254740992,
          4062246863888187 / 9007199254740992, 1805943450575569 / 4503599627370496,
          2260807012939989 / 9007199254740992, 3620894100405879 / 18014398509481984,
          1152921504606847 / 1152921504606846976]"
  have ap: "lookup AGE_PREFS ''46-60'' = Inr ?ap"
    by (simp add: lookup_def AGE_PREFS_values)
  have gp: "lookup GENDER_PREFS ''Male'' = Inr ?gp"
    by (simp add: lookup_def GENDER_PREFS_values)
  have sw: "smoothed_weights ?ap ?gp = ?sw"
    by (simp add: smoothed_weights_def keys_CATEGORIES f64_eval)
  have raw: "map (raw_weight ?ap ?gp) ?cats = ?raw"
    by (simp add: raw_weight_def pref_def f64_eval)
  have k: "keys ?sw = ?cats"
    by (simp add: keys_simps)
  have v: "vals ?sw = ?raw"
    by (simp add: vals_simps)
  have total: "py_sum ?raw = 4519362226066293 / 2251799813685248"
    by (simp add: f64_eval)
  have quot: "map (\<lambda>w. fdiv w (4519362226066293 / 2251799813685248)) ?raw = ?wts"
    by (simp add: f64_eval)
  show ccw: "combined_category_weights ''46-60'' ''Male'' = Inr (?cats, ?wts)"
    by (rule combiner_from_parts[OF ap gp sw k v total _ quot]) simp
  have ps: "py_sum ?wts = 1"
    by (simp add: f64_eval)
  show "combiner_spec ''46-60'' ''Male''"
  proof (rule combiner_spec_from_values[OF ap gp sw k v raw ccw])
    show "\<bar>py_sum ?wts - 1\<bar> \<le> 1 / 2 ^ 52"
      unfolding ps by simp
  qed (simp_all add: keys_CATEGORIES f64_eval)
qed

lemma combiner_46_60_Female:
  shows "combined_category_weights ''46-60'' ''Female'' =
     Inr ([''Home'', ''Grocery'', ''Electronics'', ''Fashion'', ''Books'', ''Beauty'',
       ''Sports''],
       [4496867789362469 / 18014398509481984, 4505843573373173 / 36028797018963968,
       4505843573373173 / 36028797018963968, 4496867789362469 / 18014398509481984,
       4505843573373173 / 36028797018963968, 4505843573373173 / 36028797018963968,
       287225088342513 / 576460752303423488])"
    (is "_ = Inr (?cats, ?wts)")
    and "combiner_spec ''46-60'' ''Female''"
proof -
  let ?ap = "[(''Home'', 5404319552844595 / 18014398509481984), (''Grocery'', 1 / 4),
          (''Electronics'', 5404319552844595 / 36028797018963968), (''Fashion'',
          5404319552844595 / 36028797018963968), (''Books'', 5404319552844595 /
          36028797018963968)]"
  let ?gp = "[(''Fashion'', 3152519739159347 / 9007199254740992), (''Beauty'', 1 / 4),
          (''Home'', 3602879701896397 / 18014398509481984), (''Electronics'',
          3602879701896397 / 36028797018963968), (''Books'', 3602879701896397 /
          36028797018963968)]"
  let ?sw = "[(''Home'', 4512606826625237 / 9007199254740992), (''Grocery'', 2260807012939989 /
          9007199254740992), (''Electronics'', 2260807012939989 / 9007199254740992),
          (''Fashion'', 4512606826625237 / 9007199254740992), (''Books'', 2260807012939989 /
          9007199254740992), (''Beauty'', 2260807012939989 / 9007199254740992), (''Sports'',
          1152921504606847 / 1152921504606846976)]"
  let ?raw = "[4512606826625237 / 9007199254740992, 2260807012939989 / 9007199254740992,
          2260807012939989 / 9007199254740992, 4512606826625237 / 9007199254740992,
          2260807012939989 / 9007199254740992, 2260807012939989 / 9007199254740992,
          1152921504606847 / 1152921504606846976]"
  have ap: "lookup AGE_PREFS ''46-60'' = Inr ?ap"
    by (simp add: lookup_def AGE_PREFS_values)
  have gp: "lookup GENDER_PREFS ''Female'' = Inr ?gp"
    by (simp add: lookup_def GENDER_PREFS_values)
  have sw: "smoothed_weights ?ap ?gp = ?sw"
    by (simp add: smoothed_weights_def keys_CATEGORIES f64_eval)
  have raw: "map (raw_weight ?ap ?gp) ?cats = ?raw"
    by (simp add: raw_weight_def pref_def f64_eval)
  have k: "keys ?sw = ?cats"
    by (simp add: keys_simps)
  have v: "vals ?sw = ?raw"
    by (simp add: vals_simps)
  have total: "py_sum ?raw = 1129840556516573 / 562949953421312"
    by (simp add: f64_eval)
  have quot: "map (\<lambda>w. fdiv w (1129840556516573 / 562949953421312)) ?raw = ?wts"
    by (simp add: f64_eval)
  show ccw: "combined_category_weights ''46-60'' ''Female'' = Inr (?cats, ?wts)"
    by (rule combiner_from_parts[OF ap gp sw k v total _ quot]) simp
  have ps: "py_sum ?wts = 4503599627370497 / 4503599627370496"
    by (simp add: f64_eval)
  show "combiner_spec ''46-60'' ''Female''"
  proof (rule combiner_spec_from_values[OF ap gp sw k v raw ccw])
    show "\<bar>py_sum ?wts - 1\<bar> \<le> 1 / 2 ^ 52"
      unfolding ps by simp
  qed (simp_all add: keys_CATEGORIES f64_eval)
qed

lemma combiner_60_plus_Male:
  shows "combined_category_weights ''60+'' ''Male'' =
     Inr ([''Grocery'', ''Home'', ''Books'', ''Electronics'', ''Beauty'', ''Sports'',
       ''Fashion''],
       [7198578776584231 / 36028797018963968, 7198578776584231 / 36028797018963968,
       5403421974443525 / 36028797018963968, 7198578776584231 / 36028797018963968,
       57220623068235 / 2251799813685248, 3608265172302819 / 36028797018963968,
       1126460893343293 / 9007199254740992])"
    (is "_ = Inr (?cats, ?wts)")
    and "combiner_spec ''60+'' ''Male''"
proof -
  let ?ap = "[(''Grocery'', 3602879701896397 / 9007199254740992), (''Home'', 1 / 4),
          (''Books'', 3602879701896397 / 18014398509481984), (''Electronics'',
          3602879701896397 / 36028797018963968), (''Beauty'', 3602879701896397 /
          72057594037927936)]"
  let ?gp = "[(''Electronics'', 5404319552844595 / 18014398509481984), (''Sports'',
          3602879701896397 / 18014398509481984), (''Fashion'', 1 / 4), (''Home'',
          5404319552844595 / 36028797018963968), (''Books'', 3602879701896397 /
          36028797018963968)]"
  let ?sw = "[(''Grocery'', 1805943450575569 / 4503599627370496), (''Home'', 1805943450575569 /
          4503599627370496), (''Books'', 2711166975677039 / 9007199254740992),
          (''Electronics'', 1805943450575569 / 4503599627370496), (''Beauty'',
          3674937295934325 / 72057594037927936), (''Sports'', 3620894100405879 /
          18014398509481984), (''Fashion'', 2260807012939989 / 9007199254740992)]"
  let ?raw = "[1805943450575569 / 4503599627370496, 1805943450575569 / 4503599627370496,
          2711166975677039 / 9007199254740992, 1805943450575569 / 4503599627370496,
          3674937295934325 / 72057594037927936, 3620894100405879 / 18014398509481984,
          2260807012939989 / 9007199254740992]"
  have ap: "lookup AGE_PREFS ''60+'' = Inr ?ap"
    by (simp add: lookup_def AGE_PREFS_values)
  have gp: "lookup GENDER_PREFS ''Male'' = Inr ?gp"
    by (simp add: lookup_def GENDER_PREFS_values)
  have sw: "smoothed_weights ?ap ?gp = ?sw"
    by (simp add: smoothed_weights_def keys_CATEGORIES f64_eval)
  have raw: "map (raw_weight ?ap ?gp) ?cats = ?raw"
    by (simp add: raw_weight_def pref_def f64_eval)
  have k: "keys ?sw = ?cats"
    by (simp add: keys_simps)
  have v: "vals ?sw = ?raw"
    by (simp add: vals_simps)
  have total: "py_sum ?raw = 4519362226066293 / 2251799813685248"
    by (simp add: f64_eval)
  have quot: "map (\<lambda>w. fdiv w (4519362226066293 / 2251799813685248)) ?raw = ?wts"
    by (simp add: f64_eval)
  show ccw: "combined_category_weights ''60+'' ''Male'' = Inr (?cats, ?wts)"
    by (rule combiner_from_parts[OF ap gp sw k v total _ quot]) simp
  have ps: "py_sum ?wts = 1"
    by (simp add: f64_eval)
  show "combiner_spec ''60+'' ''Male''"
  proof (rule combiner_spec_from_values[OF ap gp sw k v raw ccw])
    show "\<bar>py_sum ?wts - 1\<bar> \<le> 1 / 2 ^ 52"
      unfolding ps by simp
  qed (simp_all add: keys_CATEGORIES f64_eval)
qed

lemma combiner_60_plus_Female:
  shows "combined_category_weights ''60+'' ''Female'' =
     Inr ([''Grocery'', ''Home'', ''Books'', ''Electronics'', ''Beauty'', ''Fashion'',
       ''Sports''],
       [7198578776584231 / 36028797018963968, 8096157177654583 / 36028797018963968,
       5403421974443525 / 36028797018963968, 3608265172302819 / 36028797018963968,
       1350855493610881 / 9007199254740992, 6301000375513877 / 36028797018963968,
       4595601413480207 / 9223372036854775808])"
    (is "_ = Inr (?cats, ?wts)")
    and "combiner_spec ''60+'' ''Female''"
proof -
  let ?ap = "[(''Grocery'', 3602879701896397 / 9007199254740992), (''Home'', 1 / 4),
          (''Books'', 3602879701896397 / 18014398509481984), (''Electronics'',
          3602879701896397 / 36028797018963968), (''Beauty'', 3602879701896397 /
          72057594037927936)]"
  let ?gp = "[(''Fashion'', 3152519739159347 / 9007199254740992), (''Beauty'', 1 / 4),
          (''Home'', 3602879701896397 / 18014398509481984), (''Electronics'',
          3602879701896397 / 36028797018963968), (''Books'', 3602879701896397 /
          36028797018963968)]"
  let ?sw = "[(''Grocery'', 1805943450575569 / 4503599627370496), (''Home'', 8124493727776375 /
          18014398509481984), (''Books'', 2711166975677039 / 9007199254740992),
          (''Electronics'', 3620894100405879 / 18014398509481984), (''Beauty'',
          5422333951354077 / 18014398509481984), (''Fashion'', 395190867301761 /
          1125899906842624), (''Sports'', 1152921504606847 / 1152921504606846976)]"
  let ?raw = "[1805943450575569 / 4503599627370496, 8124493727776375 / 18014398509481984,
          2711166975677039 / 9007199254740992, 3620894100405879 / 18014398509481984,
          5422333951354077 / 18014398509481984, 395190867301761 / 1125899906842624,
          1152921504606847 / 1152921504606846976]"
  have ap: "lookup AGE_PREFS ''60+'' = Inr ?ap"
    by (simp add: lookup_def AGE_PREFS_values)
  have gp: "lookup GENDER_PREFS ''Female'' = Inr ?gp"
    by (simp add: lookup_def GENDER_PREFS_values)
  have sw: "smoothed_weights ?ap ?gp = ?sw"
    by (simp add: smoothed_weights_def keys_CATEGORIES f64_eval)
  have raw: "map (raw_weight ?ap ?gp) ?cats = ?raw"
    by (simp add: raw_weight_def pref_def f64_eval)
  have k: "keys ?sw = ?cats"
    by (simp add: keys_simps)
  have v: "vals ?sw = ?raw"
    by (simp add: vals_simps)
  have total: "py_sum ?raw = 4519362226066293 / 2251799813685248"
    by (simp add: f64_eval)
  have quot: "map (\<lambda>w. fdiv w (4519362226066293 / 2251799813685248)) ?raw = ?wts"
    by (simp add: f64_eval)
  show ccw: "combined_category_weights ''60+'' ''Female'' = Inr (?cats, ?wts)"
    by (rule combiner_from_parts[OF ap gp sw k v total _ quot]) simp
  have ps: "py_sum ?wts = 1"
    by (simp add: f64_eval)
  show "combiner_spec ''60+'' ''Female''"
  proof (rule combiner_spec_from_values[OF ap gp sw k v raw ccw])
    show "\<bar>py_sum ?wts - 1\<bar> \<le> 1 / 2 ^ 52"
      unfolding ps by simp
  qed (simp_all add: keys_CATEGORIES f64_eval)
qed

lemma combined_weights_props:
  assumes "age_band \<in> set (keys AGE_BANDS)" and "gender \<in> set (keys GENDERS)"
  shows "combiner_spec age_band gender"
proof -
  have a: "age_band = ''18-25'' \<or> age_band = ''26-35'' \<or> age_band = ''36-45'' \<or>
           age_band = ''46-60'' \<or> age_band = ''60+''"
    using assms(1) by (simp add: keys_AGE_BANDS)
  have g: "gender = ''Male'' \<or> gender = ''Female''"
    using assms(2) by (simp add: keys_GENDERS)
  show ?thesis
    using a g
    by (elim disjE)
      (simp_all only: combiner_18_25_Male(2) combiner_18_25_Female(2) combiner_26_35_Male(2) combiner_26_35_Female(2) combiner_36_45_Male(2) combiner_36_45_Female(2) combiner_46_60_Male(2) combiner_46_60_Female(2) combiner_60_plus_Male(2) combiner_60_plus_Female(2))
qed

lemma combined_weights_basic:
  assumes "age_band \<in> set (keys AGE_BANDS)" and "gender \<in> set (keys GENDERS)"
  shows "\<exists>cats wts.
           combined_category_weights age_band gender = Inr (cats, wts) \<and>
           length wts = length cats \<and>
           set (keys CATEGORIES) \<subseteq> set cats \<and> set cats \<subseteq> set (keys CATEGORIES) \<and>
           (\<forall>w \<in> set wts. 0 < w)"
  using combined_weights_props[OF assms] unfolding combiner_spec_def
  by (elim exE conjE, intro exI conjI) assumption+

lemma sum_list_positive:
  fixes xs :: "real list"
  assumes "xs \<noteq> []" "\<forall>x \<in> set xs. 0 < x"
  shows "0 < sum_list xs"
  using assms by (induction xs) (auto intro: add_pos_nonneg sum_list_nonneg less_imp_le)

lemma tier_cfg_props:
  assumes "tier \<in> set (keys TIERS)"
  shows "\<exists>t. lookup TIERS tier = Inr t \<and> length (cities t) = 10 \<and> length (states t) = 10 \<and>
             length (price_weights t) = 4 \<and> sum_list (price_weights t) = 1"
proof -
  have "tier = ''Tier1'' \<or> tier = ''Tier2'' \<or> tier = ''Tier3''"
    using assms by (simp add: keys_TIERS)
  then show ?thesis
    by (elim disjE) (simp_all add: lookup_def TIERS_def)
qed

lemma price_range_props:
  assumes "bucket \<in> set PRICE_BUCKETS"
  shows "\<exists>low high. lookup PRICE_RANGES bucket = Inr (low, high) \<and> low \<le> high"
proof -
  have "bucket = ''Budget'' \<or> bucket = ''Mid'' \<or> bucket = ''Premium'' \<or> bucket = ''Luxury''"
    using assms by (simp add: PRICE_BUCKETS_def)
  then show ?thesis
    by (elim disjE) (simp_all add: lookup_def PRICE_RANGES_def)
qed

lemma choose_tier_city_state_paired:
  "\<exists>tier t idx.
     choose_tier_city_state g =
       Inr ((tier, cities t ! idx, states t ! idx), (\<lambda>i. g (Suc (Suc i)))) \<and>
     tier \<in> set (keys TIERS) \<and> lookup TIERS tier = Inr t \<and>
     idx \<le> 9 \<and> idx < length (cities t) \<and> idx < length (states t)"
proof -
  have "0 < last (accumulate 0 TIER_PROBS)" by (simp add: TIER_PROBS_def)
  moreover have "length TIER_PROBS = length (keys TIERS)"
    by (simp add: TIER_PROBS_def keys_TIERS)
  moreover have "keys TIERS \<noteq> []" by (simp add: keys_TIERS)
  ultimately obtain tier where
    tier: "random_choices (keys TIERS) TIER_PROBS g = Inr (tier, (\<lambda>i. g (Suc i)))"
      "tier \<in> set (keys TIERS)"
    using random_choices_ok[of TIER_PROBS "keys TIERS" g] by blast
  obtain r where
    r: "random_randint 0 9 (\<lambda>i. g (Suc i)) = Inr (r, (\<lambda>i. g (Suc (Suc i))))" "0 \<le> r" "r \<le> 9"
    using random_randint_ok[of 0 9 "\<lambda>i. g (Suc i)"] by auto
  obtain t where
    t: "lookup TIERS tier = Inr t" "length (cities t) = 10" "length (states t) = 10"
    using tier_cfg_props[OF tier(2)] by blast
  have n: "nat r \<le> 9" using r by simp
  then have "choose_tier_city_state g =
      Inr ((tier, cities t ! nat r, states t ! nat r), (\<lambda>i. g (Suc (Suc i))))"
    using tier r t by (simp add: choose_tier_city_state_def)
  with tier t n show ?thesis by (intro exI[of _ tier] exI[of _ t] exI[of _ "nat r"]) simp
qed

lemma choose_price_in_bucket:
  assumes "tier \<in> set (keys TIERS)"
  shows "\<exists>t bucket low high price.
     lookup TIERS tier = Inr t \<and>
     random_choices PRICE_BUCKETS (price_weights t) g = Inr (bucket, (\<lambda>i. g (Suc i))) \<and>
     bucket \<in> set PRICE_BUCKETS \<and>
     lookup PRICE_RANGES bucket = Inr (low, high) \<and>
     choose_price tier g = Inr (price, (\<lambda>i. g (Suc (Suc i)))) \<and>
     of_int low \<le> price \<and> price \<le> of_int high \<and>
     (\<exists>k::int. price = of_int k / 100)"
proof -
  obtain t where
    t: "lookup TIERS tier = Inr t" "length (price_weights t) = 4"
       "sum_list (price_weights t) = 1"
    using tier_cfg_props[OF assms] by blast
  have ne: "price_weights t \<noteq> []" using t(2) by auto
  have "0 < last (accumulate 0 (price_weights t))"
    using last_accumulate[OF ne, of 0] t(3) by simp
  moreover have "length (price_weights t) = length PRICE_BUCKETS"
    using t(2) by (simp add: PRICE_BUCKETS_def)
  moreover have "PRICE_BUCKETS \<noteq> []" by (simp add: PRICE_BUCKETS_def)
  ultimately obtain bucket where
    b: "random_choices PRICE_BUCKETS (price_weights t) g = Inr (bucket, (\<lambda>i. g (Suc i)))"
       "bucket \<in> set PRICE_BUCKETS"
    using random_choices_ok[of "price_weights t" PRICE_BUCKETS g] by blast
  obtain low high where
    lh: "lookup PRICE_RANGES bucket = Inr (low, high)" "low \<le> high"
    using price_range_props[OF b(2)] by blast
  define x where "x = fst (random_uniform (of_int low) (of_int high) (\<lambda>i. g (Suc i)))"
  have u: "random_uniform (of_int low) (of_int high) (\<lambda>i. g (Suc i)) = (x, (\<lambda>i. g (Suc (Suc i))))"
    by (simp add: x_def random_uniform_def random_random_def)
  have xr: "of_int low \<le> x \<and> x \<le> of_int high"
    unfolding x_def using lh(2) by (intro random_uniform_range) simp
  have "of_int (low * 100) / 100 \<le> py_round2 x \<and> py_round2 x \<le> of_int (high * 100) / 100"
    using xr by (intro py_round2_range) simp_all
  then have pr: "of_int low \<le> py_round2 x \<and> py_round2 x \<le> of_int high" by simp
  have cp: "choose_price tier g = Inr (py_round2 x, (\<lambda>i. g (Suc (Suc i))))"
    using t b lh u by (simp add: choose_price_def)
  show ?thesis
    using t(1) b lh(1) cp pr py_round2_cents[of x] by blast
qed

text \<open>
  C2, as amended: for every age band and every gender of the configuration,
  \<open>combined_category_weights\<close> returns normally; the returned categories are the
  known categories, each once; before the normalisation the weight of a category is
  its age-band weight plus its gender weight plus the smoothing constant (the double
  next to 0.001, which is not below 0.001), and is at least that constant; the
  returned weight of a category is that weight divided by the sum of them all, and
  is strictly positive; and the returned weights sum to 1 up to the rounding of
  double arithmetic, within \<open>2\<^sup>-\<^sup>5\<^sup>2\<close>, whether they are summed exactly or by
  \<open>sum\<close>.
\<close>

theorem combined_category_weights_distribution:
  assumes "age_band \<in> set (keys AGE_BANDS)" and "gender \<in> set (keys GENDERS)"
  shows "\<exists>age_prefs gender_prefs cats wts.
           lookup AGE_PREFS age_band = Inr age_prefs \<and>
           lookup GENDER_PREFS gender = Inr gender_prefs \<and>
           combined_category_weights age_band gender = Inr (cats, wts) \<and>
           cats = keys (smoothed_weights age_prefs gender_prefs) \<and>
           vals (smoothed_weights age_prefs gender_prefs) =
             map (raw_weight age_prefs gender_prefs) cats \<and>
           length wts = length cats \<and> distinct cats \<and>
           set (keys CATEGORIES) \<subseteq> set cats \<and> set cats \<subseteq> set (keys CATEGORIES) \<and>
           (\<forall>cat \<in> set cats. 0.001 \<le> f64 0.001 \<and>
                             f64 0.001 \<le> raw_weight age_prefs gender_prefs cat) \<and>
           wts = map (\<lambda>cat. fdiv (raw_weight age_prefs gender_prefs cat)
                             (py_sum (map (raw_weight age_prefs gender_prefs) cats))) cats \<and>
           (\<forall>w \<in> set wts. 0 < w) \<and>
           \<bar>sum_list wts - 1\<bar> \<le> 1 / 2 ^ 52 \<and> \<bar>py_sum wts - 1\<bar> \<le> 1 / 2 ^ 52"
  using combined_weights_props[OF assms] unfolding combiner_spec_def .

theorem combined_category_weights_distribution_witness:
  "''46-60'' \<in> set (keys AGE_BANDS) \<and> ''Female'' \<in> set (keys GENDERS) \<and>
   (\<exists>cats wts. combined_category_weights ''46-60'' ''Female'' = Inr (cats, wts) \<and>
      length wts = length cats \<and> set (keys CATEGORIES) \<subseteq> set cats \<and>
      \<bar>sum_list wts - 1\<bar> \<le> 1 / 2 ^ 52 \<and> \<bar>py_sum wts - 1\<bar> \<le> 1 / 2 ^ 52)"
proof -
  have a: "''46-60'' \<in> set (keys AGE_BANDS)" by (simp add: keys_AGE_BANDS)
  have g: "''Female'' \<in> set (keys GENDERS)" by (simp add: keys_GENDERS)
  from combined_category_weights_distribution[OF a g] obtain cats wts where
    "combined_category_weights ''46-60'' ''Female'' = Inr (cats, wts)"
    "length wts = length cats" "set (keys CATEGORIES) \<subseteq> set cats"
    "\<bar>sum_list wts - 1\<bar> \<le> 1 / 2 ^ 52" "\<bar>py_sum wts - 1\<bar> \<le> 1 / 2 ^ 52"
    by (elim exE conjE) (rule that)
  with a g show ?thesis by (intro conjI exI[of _ cats] exI[of _ wts])
qed

text \<open>
  The claim C2 as it stands asks for weights that sum to 1. In double arithmetic
  they need not: for the age band 26-35 and the gender Male, \<open>sum\<close> of the returned
  weights is \<open>1 - 2\<^sup>-\<^sup>5\<^sup>3\<close>, printed 0.9999999999999999, and their exact sum is below
  1 as well.
\<close>

theorem combined_category_weights_distribution_counterexample:
  "combined_category_weights ''26-35'' ''Male'' =
     Inr ([''Electronics'', ''Fashion'', ''Home'', ''Sports'', ''Beauty'', ''Books'',
        ''Grocery''],
        [4945656989897645 / 18014398509481984, 4945656989897645 / 18014398509481984,
        6301000375513877 / 36028797018963968, 6301000375513877 / 36028797018963968,
        1813108370162113 / 36028797018963968, 1813108370162113 / 36028797018963968,
        4595601413480207 / 9223372036854775808]) \<and>
   py_sum
        [4945656989897645 / 18014398509481984, 4945656989897645 / 18014398509481984,
        6301000375513877 / 36028797018963968, 6301000375513877 / 36028797018963968,
        1813108370162113 / 36028797018963968, 1813108370162113 / 36028797018963968,
        4595601413480207 / 9223372036854775808] = 1 - 1 / 2 ^ 53 \<and>
   sum_list
        ([4945656989897645 / 18014398509481984, 4945656989897645 / 18014398509481984,
        6301000375513877 / 36028797018963968, 6301000375513877 / 36028797018963968,
        1813108370162113 / 36028797018963968, 1813108370162113 / 36028797018963968,
        4595601413480207 / 9223372036854775808] :: real list) < 1"
proof (intro conjI)
  show "py_sum
        [4945656989897645 / 18014398509481984, 4945656989897645 / 18014398509481984,
        6301000375513877 / 36028797018963968, 6301000375513877 / 36028797018963968,
        1813108370162113 / 36028797018963968, 1813108370162113 / 36028797018963968,
        4595601413480207 / 9223372036854775808] = 1 - 1 / 2 ^ 53"
    by (simp add: f64_eval)
qed (simp_all add: combiner_26_35_Male(1))

lemma choose_tier_city_state_draws:
  "\<exists>tier g1 idx g2 t.
     random_choices (keys TIERS) TIER_PROBS g = Inr (tier, g1) \<and>
     random_randint 0 9 g1 = Inr (idx, g2) \<and> 0 \<le> idx \<and> idx \<le> 9 \<and>
     tier \<in> set (keys TIERS) \<and> lookup TIERS tier = Inr t \<and>
     length (cities t) = 10 \<and> length (states t) = 10 \<and>
     choose_tier_city_state g =
       Inr ((tier, cities t ! nat idx, states t ! nat idx), g2)"
proof -
  have "0 < last (accumulate 0 TIER_PROBS)" by (simp add: TIER_PROBS_def)
  moreover have "length TIER_PROBS = length (keys TIERS)"
    by (simp add: TIER_PROBS_def keys_TIERS)
  moreover have "keys TIERS \<noteq> []" by (simp add: keys_TIERS)
  ultimately obtain tier where
    tier: "random_choices (keys TIERS) TIER_PROBS g = Inr (tier, (\<lambda>i. g (Suc i)))"
      "tier \<in> set (keys TIERS)"
    using random_choices_ok[of TIER_PROBS "keys TIERS" g] by blast
  obtain r where
    r: "random_randint 0 9 (\<lambda>i. g (Suc i)) = Inr (r, (\<lambda>i. g (Suc (Suc i))))" "0 \<le> r" "r \<le> 9"
    using random_randint_ok[of 0 9 "\<lambda>i. g (Suc i)"] by auto
  obtain t where
    t: "lookup TIERS tier = Inr t" "length (cities t) = 10" "length (states t) = 10"
    using tier_cfg_props[OF tier(2)] by blast
  have "nat r < 10" using r by simp
  then have "choose_tier_city_state g =
      Inr ((tier, cities t ! nat r, states t ! nat r), (\<lambda>i. g (Suc (Suc i))))"
    using tier r t by (simp add: choose_tier_city_state_def)
  with tier r t show ?thesis
    by (intro exI[of _ tier] exI[of _ "\<lambda>i. g (Suc i)"] exI[of _ r]
        exI[of _ "\<lambda>i. g (Suc (Suc i))"] exI[of _ t] conjI)
qed

text \<open>
  Streams on which the tier draw falls in each of the three tiers: the first word
  gives \<open>random()\<close> = 0, 1/2 and \<open>1 - 2\<^sup>-\<^sup>5\<^sup>3\<close>.
\<close>

lemma every_tier_and_index_drawn:
  assumes "tier \<in> set (keys TIERS)" and "i < 10"
  shows "\<exists>g t g'. lookup TIERS tier = Inr t \<and>
           random_choices (keys TIERS) TIER_PROBS g = Inr (tier, (\<lambda>k. g (Suc k))) \<and>
           random_randint 0 9 (\<lambda>k. g (Suc k)) = Inr (int i, g') \<and>
           choose_tier_city_state g = Inr ((tier, cities t ! i, states t ! i), g')"
proof -
  have pick: "\<exists>w. random_choices (keys TIERS) TIER_PROBS (\<lambda>k. if k = 0 then w else i) =
                 Inr (tier, (\<lambda>k. (if Suc k = 0 then w else i)))"
  proof -
    have "tier = ''Tier1'' \<or> tier = ''Tier2'' \<or> tier = ''Tier3''"
      using assms(1) by (simp add: keys_TIERS)
    then show ?thesis
    proof (elim disjE)
      assume "tier = ''Tier1''"
      then show ?thesis
        by (intro exI[of _ 0])
           (simp add: random_choices_def random_random_def keys_TIERS TIER_PROBS_def Let_def
              bisect_right.simps)
    next
      assume "tier = ''Tier2''"
      then show ?thesis
        by (intro exI[of _ "2 ^ 52"])
           (simp add: random_choices_def random_random_def keys_TIERS TIER_PROBS_def Let_def
              bisect_right.simps)
    next
      assume "tier = ''Tier3''"
      then show ?thesis
        by (intro exI[of _ "2 ^ 53 - 1"])
           (simp add: random_choices_def random_random_def keys_TIERS TIER_PROBS_def Let_def
              bisect_right.simps)
    qed
  qed
  then obtain w where
    w: "random_choices (keys TIERS) TIER_PROBS (\<lambda>k. if k = 0 then w else i) =
          Inr (tier, (\<lambda>k. (if Suc k = 0 then w else i)))"
    by blast
  let ?g = "\<lambda>k. if k = 0 then w else i"
  obtain t where
    t: "lookup TIERS tier = Inr t" "length (cities t) = 10" "length (states t) = 10"
    using tier_cfg_props[OF assms(1)] by blast
  have r: "random_randint 0 9 (\<lambda>k. ?g (Suc k)) = Inr (int i, (\<lambda>k. ?g (Suc (Suc k))))"
    using assms(2) by (simp add: random_randint_def randbelow_def)
  have c: "choose_tier_city_state ?g =
      Inr ((tier, cities t ! i, states t ! i), (\<lambda>k. ?g (Suc (Suc k))))"
    using w r t assms(2) by (simp add: choose_tier_city_state_def)
  show ?thesis
    using t(1) w r c
    by (intro exI[of _ ?g] exI[of _ t] exI[of _ "\<lambda>k. ?g (Suc (Suc k))"] conjI) simp_all
qed

text \<open>
  C6: whatever the generator delivers, \<open>choose_tier_city_state\<close> returns normally:
  the tier is the one \<open>random.choices\<close> draws from the tiers under \<open>TIER_PROBS\<close>,
  the index is the one \<open>randint(0, 9)\<close> draws next, and the city and the state
  returned stand at that one index of that tier's \<open>cities\<close> and \<open>states\<close> lists,
  which have ten entries each. Every tier and every index from 0 to 9 is drawn on
  some stream, and the pair returned is then the one at that index of that tier.
\<close>

theorem choose_tier_city_state_same_index:
  "(\<exists>tier g1 idx g2 t.
      random_choices (keys TIERS) TIER_PROBS g = Inr (tier, g1) \<and>
      random_randint 0 9 g1 = Inr (idx, g2) \<and> 0 \<le> idx \<and> idx \<le> 9 \<and>
      tier \<in> set (keys TIERS) \<and> lookup TIERS tier = Inr t \<and>
      length (cities t) = 10 \<and> length (states t) = 10 \<and>
      choose_tier_city_state g =
        Inr ((tier, cities t ! nat idx, states t ! nat idx), g2)) \<and>
   (\<forall>tier \<in> set (keys TIERS). \<forall>i < 10.
      \<exists>g t g'. lookup TIERS tier = Inr t \<and>
        random_choices (keys TIERS) TIER_PROBS g = Inr (tier, (\<lambda>k. g (Suc k))) \<and>
        random_randint 0 9 (\<lambda>k. g (Suc k)) = Inr (int i, g') \<and>
        choose_tier_city_state g = Inr ((tier, cities t ! i, states t ! i), g'))"
  using choose_tier_city_state_draws[of g] every_tier_and_index_drawn
  by (intro conjI ballI allI impI)

theorem choose_tier_city_state_same_index_witness:
  "''Tier2'' \<in> set (keys TIERS) \<and> (3::nat) < 10 \<and>
   (\<exists>g g'. choose_tier_city_state g = Inr ((''Tier2'', ''Indore'', ''Madhya Pradesh''), g'))"
proof -
  have m: "''Tier2'' \<in> set (keys TIERS)" by (simp add: keys_TIERS)
  have n: "(3::nat) < 10" by simp
  from choose_tier_city_state_same_index[of "\<lambda>k. 0"] m n obtain g t g' where
    t: "lookup TIERS ''Tier2'' = Inr t" and
    c: "choose_tier_city_state g = Inr ((''Tier2'', cities t ! 3, states t ! 3), g')"
    by blast
  from t have "cities t ! 3 = ''Indore''" "states t ! 3 = ''Madhya Pradesh''"
    by (auto simp: lookup_def TIERS_def)
  with c m n show ?thesis by auto
qed



section \<open>The recommendation sampler\<close>

lemma product_fields_append:
  assumes "length xs = 5 * n"
  shows "product_fields (xs @ [a, b, c, d, e]) = product_fields xs @ [a]"
proof -
  have "product_fields (xs @ [a, b, c, d, e]) =
        map (\<lambda>i. (xs @ [a, b, c, d, e]) ! (5 * i)) [0..<Suc n]"
    using assms by (simp add: product_fields_def)
  also have "\<dots> = map (\<lambda>i. (xs @ [a, b, c, d, e]) ! (5 * i)) [0..<n] @ [(xs @ [a, b, c, d, e]) ! (5 * n)]"
    by simp
  also have "map (\<lambda>i. (xs @ [a, b, c, d, e]) ! (5 * i)) [0..<n] = map (\<lambda>i. xs ! (5 * i)) [0..<n]"
    using assms by (auto simp: nth_append)
  also have "(xs @ [a, b, c, d, e]) ! (5 * n) = a"
    using assms by (simp add: nth_append)
  finally show ?thesis using assms by (simp add: product_fields_def)
qed

lemma loop_inv_init: "loop_inv ({}, [], g)"
  by (simp add: loop_inv_def product_fields_def)

lemma loop_inv_card:
  assumes "loop_inv (seen_products, rec_flat, g)"
  shows "finite seen_products \<and> card seen_products \<le> RECS_PER_USER \<and>
         length rec_flat = 5 * card seen_products \<and>
         (\<exists>names. product_fields rec_flat = map CStr names \<and>
                  length names = card seen_products \<and> distinct names)"
proof -
  from assms obtain names where n: "distinct names" "set names = seen_products"
    "length names \<le> RECS_PER_USER" "length rec_flat = 5 * length names"
    "product_fields rec_flat = map CStr names"
    by (auto simp: loop_inv_def)
  have c: "card seen_products = length names" using n(1,2) distinct_card by fastforce
  from n c show ?thesis by auto
qed

lemma rec_body_inv:
  assumes "loop_inv st" "card (fst st) < RECS_PER_USER"
    "rec_body cats weights tier st = Inr st'"
  shows "loop_inv st'"
proof -
  obtain seen_products rec_flat g where st: "st = (seen_products, rec_flat, g)"
    by (cases st)
  from assms(1) st obtain names where n: "distinct names" "set names = seen_products"
    "length names \<le> RECS_PER_USER" "length rec_flat = 5 * length names"
    "product_fields rec_flat = map CStr names"
    by (auto simp: loop_inv_def)
  have c: "card seen_products = length names" using n(1,2) distinct_card by fastforce
  from assms(3) st consider
      (retry) g' where "st' = (seen_products, rec_flat, g')"
    | (accept) product_name x y z w g' where "product_name \<notin> seen_products"
        "st' = (insert product_name seen_products,
                rec_flat @ [CStr product_name, x, y, z, w], g')"
    by (auto simp: rec_body_def Let_def split: sum.splits prod.splits if_splits)
  then show ?thesis
  proof cases
    case retry
    with n show ?thesis by (auto simp: loop_inv_def)
  next
    case accept
    let ?names = "names @ [product_name]"
    have "distinct ?names" using n(1,2) accept(1) by simp
    moreover have "set ?names = insert product_name seen_products" using n(2) by simp
    moreover have "length ?names \<le> RECS_PER_USER" using assms(2) st c by simp
    moreover have "length (rec_flat @ [CStr product_name, x, y, z, w]) = 5 * length ?names"
      using n(4) by simp
    moreover have "product_fields (rec_flat @ [CStr product_name, x, y, z, w]) = map CStr ?names"
      using product_fields_append[OF n(4)] n(5) by simp
    ultimately show ?thesis unfolding accept(2) loop_inv_def by blast
  qed
qed

lemma category_cfg_props:
  assumes "category \<in> set (keys CATEGORIES)"
  shows "\<exists>c. lookup CATEGORIES category = Inr c \<and> items c \<noteq> [] \<and> brands c \<noteq> []"
proof -
  have "category = ''Electronics'' \<or> category = ''Fashion'' \<or> category = ''Home'' \<or>
        category = ''Beauty'' \<or> category = ''Books'' \<or> category = ''Sports'' \<or>
        category = ''Grocery''"
    using assms by (simp add: keys_CATEGORIES)
  then show ?thesis
    by (elim disjE) (simp_all add: lookup_def CATEGORIES_def)
qed

lemma rec_body_ok:
  assumes "sampler_ready cats weights tier"
  shows "\<exists>st'. rec_body cats weights tier st = Inr st'"
proof -
  obtain seen_products rec_flat g where st: "st = (seen_products, rec_flat, g)"
    by (cases st)
  from assms have r: "length weights = length cats" "cats \<noteq> []"
    "0 < last (accumulate 0 weights)" "set cats \<subseteq> set (keys CATEGORIES)"
    "tier \<in> set (keys TIERS)"
    by (simp_all add: sampler_ready_def)
  obtain category g1 where
    cat: "random_choices cats weights g = Inr (category, g1)" "category \<in> set cats"
    using random_choices_ok[OF r(1,2,3), of g] by blast
  then have "category \<in> set (keys CATEGORIES)" using r(4) by blast
  then obtain c where c: "lookup CATEGORIES category = Inr c" "items c \<noteq> []" "brands c \<noteq> []"
    using category_cfg_props by blast
  obtain item g2 where i: "random_choice (items c) g1 = Inr (item, g2)"
    using random_choice_ok[OF c(2), of g1] by blast
  obtain brand g3 where b: "random_choice (brands c) g2 = Inr (brand, g3)"
    using random_choice_ok[OF c(3), of g2] by blast
  obtain price g4 where pr: "choose_price tier g3 = Inr (price, g4)"
    using choose_price_in_bucket[OF r(5), of g3] by blast
  obtain u g5 where u: "random_uniform 0.1 1.0 g4 = (u, g5)"
    by (cases "random_uniform 0.1 1.0 g4")
  show ?thesis
    unfolding st rec_body_def using cat(1) c(1) i b pr u by (simp add: Let_def)
qed

lemma rec_loop_result:
  assumes "rec_loop cats weights tier st = Some y"
  shows "sampler_ready cats weights tier \<longrightarrow> loop_inv st \<longrightarrow>
         (\<exists>st'. y = Inr st' \<and> loop_inv st' \<and> card (fst st') = RECS_PER_USER)"
proof (rule rec_loop.raw_induct[where P = "\<lambda>cats weights tier st y.
         sampler_ready cats weights tier \<longrightarrow> loop_inv st \<longrightarrow>
         (\<exists>st'. y = Inr st' \<and> loop_inv st' \<and> card (fst st') = RECS_PER_USER)", OF _ assms],
       intro impI)
  fix f cats weights tier st y
  assume ih: "\<And>cats weights tier st y. f cats weights tier st = Some y \<Longrightarrow>
         sampler_ready cats weights tier \<longrightarrow> loop_inv st \<longrightarrow>
         (\<exists>st'. y = Inr st' \<and> loop_inv st' \<and> card (fst st') = RECS_PER_USER)"
    and eq: "(if card (fst st) < RECS_PER_USER
              then case rec_body cats weights tier st of
                     Inl e \<Rightarrow> Some (Inl e)
                   | Inr st' \<Rightarrow> f cats weights tier st'
              else Some (Inr st)) = Some y"
    and ready: "sampler_ready cats weights tier" and inv: "loop_inv st"
  show "\<exists>st'. y = Inr st' \<and> loop_inv st' \<and> card (fst st') = RECS_PER_USER"
  proof (cases "card (fst st) < RECS_PER_USER")
    case True
    obtain st1 where b: "rec_body cats weights tier st = Inr st1"
      using rec_body_ok[OF ready] by blast
    have "loop_inv st1" using rec_body_inv[OF inv True b] .
    moreover have "f cats weights tier st1 = Some y"
      using eq True b by simp
    ultimately show ?thesis using ih ready by blast
  next
    case False
    then have y: "y = Inr st" using eq by simp
    obtain seen_products rec_flat g where st: "st = (seen_products, rec_flat, g)"
      by (cases st)
    have "card (fst st) \<le> RECS_PER_USER" using loop_inv_card inv st by auto
    with False y inv show ?thesis by simp
  qed
qed

lemma choose_age_band_ok:
  "\<exists>age_band age. choose_age_band g = Inr ((age_band, age), (\<lambda>i. g (Suc (Suc i)))) \<and>
     age_band \<in> set (keys AGE_BANDS)"
proof -
  have "0 < last (accumulate 0 (map p (vals AGE_BANDS)))"
    by (simp add: AGE_BANDS_def vals_def)
  moreover have "length (map p (vals AGE_BANDS)) = length (keys AGE_BANDS)"
    by (simp add: vals_def keys_def)
  moreover have "keys AGE_BANDS \<noteq> []" by (simp add: keys_AGE_BANDS)
  ultimately obtain band where
    band: "random_choices (keys AGE_BANDS) (map p (vals AGE_BANDS)) g = Inr (band, (\<lambda>i. g (Suc i)))"
      "band \<in> set (keys AGE_BANDS)"
    using random_choices_ok[of "map p (vals AGE_BANDS)" "keys AGE_BANDS" g] by blast
  have "band = ''18-25'' \<or> band = ''26-35'' \<or> band = ''36-45'' \<or>
        band = ''46-60'' \<or> band = ''60+''"
    using band(2) by (simp add: keys_AGE_BANDS)
  then obtain d low high where
    d: "lookup AGE_BANDS band = Inr d" "band_range d = (low, high)" "low \<le> high"
    by (elim disjE) (simp_all add: lookup_def AGE_BANDS_def)
  obtain age where
    "random_randint low high (\<lambda>i. g (Suc i)) = Inr (age, (\<lambda>i. g (Suc (Suc i))))"
    using random_randint_ok[OF d(3), of "\<lambda>i. g (Suc i)"] by blast
  with band d show ?thesis by (simp add: choose_age_band_def)
qed

lemma choose_gender_ok:
  "\<exists>gender. choose_gender g = Inr (gender, (\<lambda>i. g (Suc i))) \<and> gender \<in> set (keys GENDERS)"
proof -
  have "0 < last (accumulate 0 (vals GENDERS))" by (simp add: GENDERS_def vals_def)
  moreover have "length (vals GENDERS) = length (keys GENDERS)"
    by (simp add: vals_def keys_def)
  moreover have "keys GENDERS \<noteq> []" by (simp add: keys_GENDERS)
  ultimately show ?thesis
    unfolding choose_gender_def
    using random_choices_ok[of "vals GENDERS" "keys GENDERS" g] by blast
qed

lemma choose_tier_city_state_ok:
  "\<exists>tier city state.
     choose_tier_city_state g = Inr ((tier, city, state), (\<lambda>i. g (Suc (Suc i)))) \<and>
     tier \<in> set (keys TIERS)"
  using choose_tier_city_state_paired[of g]
  by (elim exE conjE, intro exI conjI) assumption+

lemma gen_user_row_result:
  assumes "gen_user_row idx g = Some y"
  shows "\<exists>age gender state city tier rec_flat g'.
     y = Inr ([CStr (''USER_'' @ fmt_06d idx), CInt age, CStr gender, CStr state, CStr city,
               CStr tier] @ rec_flat, g') \<and>
     length rec_flat = 5 * RECS_PER_USER \<and>
     (\<exists>names. product_fields rec_flat = map CStr names \<and>
              length names = RECS_PER_USER \<and> distinct names)"
proof -
  obtain age_band age g1 where
    ab: "choose_age_band g = Inr ((age_band, age), g1)" "age_band \<in> set (keys AGE_BANDS)"
    using choose_age_band_ok[of g] by blast
  obtain gender g2 where
    ge: "choose_gender g1 = Inr (gender, g2)" "gender \<in> set (keys GENDERS)"
    using choose_gender_ok[of g1] by blast
  obtain tier city state where
    ti: "choose_tier_city_state g2 = Inr ((tier, city, state), (\<lambda>i. g2 (Suc (Suc i))))"
        "tier \<in> set (keys TIERS)"
    using choose_tier_city_state_ok[of g2] by blast
  obtain cats wts where
    cw: "combined_category_weights age_band gender = Inr (cats, wts)"
        "length wts = length cats" "set (keys CATEGORIES) \<subseteq> set cats"
        "set cats \<subseteq> set (keys CATEGORIES)" "\<forall>w \<in> set wts. 0 < w"
    using combined_weights_basic[OF ab(2) ge(2)] by blast
  have ne: "cats \<noteq> []" using cw(3) by (auto simp: keys_CATEGORIES)
  then have nw: "wts \<noteq> []" using cw(2) by auto
  then have "0 < last (accumulate 0 wts)"
    using last_accumulate[of wts 0] sum_list_positive[OF nw cw(5)] by simp
  with cw ne ti(2) have ready: "sampler_ready cats wts tier"
    by (simp add: sampler_ready_def)
  let ?g3 = "\<lambda>i. g2 (Suc (Suc i))"
  from assms ab(1) ge(1) ti(1) cw(1) obtain r where
    r: "rec_loop cats wts tier ({}, [], ?g3) = Some r"
    by (cases "rec_loop cats wts tier ({}, [], ?g3)") (simp_all add: gen_user_row_def)
  from rec_loop_result[OF r] ready loop_inv_init obtain st' where
    st': "r = Inr st'" "loop_inv st'" "card (fst st') = RECS_PER_USER"
    by blast
  obtain seen_products rec_flat g4 where s: "st' = (seen_products, rec_flat, g4)"
    by (cases st')
  from loop_inv_card[of seen_products rec_flat g4] st' s have
    "length rec_flat = 5 * RECS_PER_USER"
    "\<exists>names. product_fields rec_flat = map CStr names \<and>
             length names = RECS_PER_USER \<and> distinct names"
    by simp_all
  moreover have "y = Inr ([CStr (''USER_'' @ fmt_06d idx), CInt age, CStr gender,
       CStr state, CStr city, CStr tier] @ rec_flat, g4)"
    using assms ab(1) ge(1) ti(1) cw(1) r st'(1) s by (simp add: gen_user_row_def)
  ultimately show ?thesis by blast
qed

lemma example_row:
  "\<exists>row g'. gen_user_row 1 (example_seed 42) = Some (Inr (row, g'))"
  by (simp add: gen_user_row_def choose_age_band_def choose_gender_def
      choose_tier_city_state_def choose_price_def random_choices_def random_choice_def
      random_randint_def random_uniform_def random_random_def randbelow_def lookup_def
      keys_simps vals_simps Let_def bisect_right.simps py_round2_def
      AGE_BANDS_def GENDERS_def TIERS_def TIER_PROBS_def
      PRICE_BUCKETS_def PRICE_RANGES_def CATEGORIES_def
      combiner_18_25_Male(1) rec_loop.simps rec_body_def
      RECS_PER_USER_def example_seed_def fmt_06d_def str_nat.simps)

text \<open>
  C1: every row \<open>gen_user_row\<close> returns has six identity fields followed by
  exactly \<open>RECS_PER_USER\<close> = 10 recommendation blocks of five fields, and the
  product names, the first field of each block, are pairwise distinct strings.
\<close>

theorem gen_user_row_unique_recommendations:
  assumes "gen_user_row idx g = Some (Inr (row, g'))"
  shows "length row = 6 + 5 * RECS_PER_USER \<and>
         (\<exists>names. product_fields (drop 6 row) = map CStr names \<and>
                  length names = RECS_PER_USER \<and> distinct names) \<and>
         RECS_PER_USER = 10"
  using gen_user_row_result[OF assms] by (auto simp: RECS_PER_USER_def)

theorem gen_user_row_unique_recommendations_witness:
  "\<exists>row g'. gen_user_row 1 (example_seed 42) = Some (Inr (row, g')) \<and>
     length row = 56 \<and>
     (\<exists>names. product_fields (drop 6 row) = map CStr names \<and>
              length names = 10 \<and> distinct names)"
proof -
  obtain row g' where g: "gen_user_row 1 (example_seed 42) = Some (Inr (row, g'))"
    using example_row by blast
  from gen_user_row_unique_recommendations[OF g] g show ?thesis
    by (auto simp: RECS_PER_USER_def)
qed

section \<open>Writing the file and checking it\<close>

lemma build_header_eq:
  "build_header =
    [''user_id'', ''age'', ''gender'', ''state'', ''city'', ''tier'',
     ''product_1'', ''category_1'', ''brand_1'', ''price_1'', ''recommendation_score_1'',
     ''product_2'', ''category_2'', ''brand_2'', ''price_2'', ''recommendation_score_2'',
     ''product_3'', ''category_3'', ''brand_3'', ''price_3'', ''recommendation_score_3'',
     ''product_4'', ''category_4'', ''brand_4'', ''price_4'', ''recommendation_score_4'',
     ''product_5'', ''category_5'', ''brand_5'', ''price_5'', ''recommendation_score_5'',
     ''product_6'', ''category_6'', ''brand_6'', ''price_6'', ''recommendation_score_6'',
     ''product_7'', ''category_7'', ''brand_7'', ''price_7'', ''recommendation_score_7'',
     ''product_8'', ''category_8'', ''brand_8'', ''price_8'', ''recommendation_score_8'',
     ''product_9'', ''category_9'', ''brand_9'', ''price_9'', ''recommendation_score_9'',
     ''product_10'', ''category_10'', ''brand_10'', ''price_10'',
     ''recommendation_score_10'']"
proof -
  have u: "[1..<RECS_PER_USER + 1] = [1, 2, 3, 4, 5, 6, 7, 8, 9, 10]"
    by (simp add: RECS_PER_USER_def upt_rec)
  show ?thesis
    unfolding build_header_def u by (simp add: str_nat.simps)
qed

lemma length_build_header: "length build_header = 6 + 5 * RECS_PER_USER"
  by (simp add: build_header_eq RECS_PER_USER_def)

lemma write_rows_result:
  assumes "write_rows idxs fh printed g = Some (e, fh', printed', g')"
  shows "e = None \<and> (\<exists>data. fh' = fh @ data \<and> length data = length idxs \<and>
           (\<forall>row \<in> set data. length row = 6 + 5 * RECS_PER_USER))"
  using assms
proof (induction idxs arbitrary: fh printed g)
  case Nil
  then show ?case by simp
next
  case (Cons idx idxs)
  from Cons.prems obtain y where y: "gen_user_row idx g = Some y"
    by (cases "gen_user_row idx g") simp_all
  from gen_user_row_result[OF y] obtain row g1 where
    r: "y = Inr (row, g1)" "length row = 6 + 5 * RECS_PER_USER"
    by auto
  let ?printed = "if idx mod 10000 = 0 then printed @ [Progress idx] else printed"
  from Cons.prems y r have
    "write_rows idxs (fh @ [row]) ?printed g1 = Some (e, fh', printed', g')"
    by simp
  from Cons.IH[OF this] obtain data where
    d: "e = None" "fh' = (fh @ [row]) @ data" "length data = length idxs"
       "\<forall>row \<in> set data. length row = 6 + 5 * RECS_PER_USER"
    by blast
  have "fh' = fh @ (row # data)" using d(2) by simp
  moreover have "length (row # data) = length (idx # idxs)" using d(3) by simp
  moreover have "\<forall>x \<in> set (row # data). length x = 6 + 5 * RECS_PER_USER"
    using d(4) r(2) by simp
  ultimately show ?case using d(1) by blast
qed

lemma length_range: "length [1..n] = nat n"
  by simp

lemma main_result:
  assumes "main random_seed a clock fs = Some r"
  shows "\<exists>data. files r = fs(out a \<mapsto> map CStr build_header # data) \<and>
           length data = nat (rows a) \<and>
           (\<forall>row \<in> set data. length row = 6 + 5 * RECS_PER_USER) \<and>
           status r = sanity_check (map CStr build_header # data)"
proof -
  from assms obtain e fh printed g' where
    w: "write_rows [1..rows a] [map CStr build_header] [] (random_seed 42) =
          Some (e, fh, printed, g')"
    by (cases "write_rows [1..rows a] [map CStr build_header] [] (random_seed 42)")
       (auto simp: main_def)
  from write_rows_result[OF w] obtain data where
    d: "e = None" "fh = [map CStr build_header] @ data" "length data = length [1..rows a]"
       "\<forall>row \<in> set data. length row = 6 + 5 * RECS_PER_USER"
    by blast
  have "r = \<lparr>files = fs(out a \<mapsto> fh),
             stdout = printed @ [Finished (rows a) (snd clock - fst clock) (out a)],
             status = sanity_check fh\<rparr>"
    using assms w d(1) by (simp add: main_def Let_def)
  with d show ?thesis by (intro exI[of _ data]) simp
qed

lemma sanity_check_rows:
  "sanity_check (header # first_row # data) =
     (if length first_row \<noteq> 6 + 5 * RECS_PER_USER
      then SysExit (''ERROR: expected 56 columns, got '' @ str_nat (length first_row))
      else Exit0)"
proof -
  have "str_nat 56 = ''56''" by (simp add: str_nat.simps)
  then show ?thesis
    by (simp add: sanity_check_def Let_def length_build_header RECS_PER_USER_def)
qed

lemma main_no_rows:
  assumes "rows a \<le> 0"
  shows "main random_seed a clock fs =
     Some \<lparr>files = fs(out a \<mapsto> [map CStr build_header]),
           stdout = [Finished (rows a) (snd clock - fst clock) (out a)],
           status = Uncaught StopIteration\<rparr>"
proof -
  have "[1..rows a] = []" using assms by simp
  then show ?thesis by (simp add: main_def Let_def sanity_check_def)
qed

lemma example_run:
  "\<exists>r. main example_seed \<lparr>rows = 1, out = ''out.csv''\<rparr> (0, 1) Map.empty = Some r"
proof -
  obtain row g' where g: "gen_user_row 1 (example_seed 42) = Some (Inr (row, g'))"
    using example_row by blast
  have "[1..1] = [1::int]" by (simp add: upto.simps)
  then show ?thesis using g by (simp add: main_def Let_def)
qed

section \<open>Fields that need no quoting\<close>
















section \<open>Runs of the program\<close>

text \<open>
  C4: the sanity check reads the first data record of the file just written. When
  it has not 6 + 5 * \<open>RECS_PER_USER\<close> = 56 fields the process ends through
  \<open>sys.exit\<close> with the message "ERROR: expected 56 columns, got n", hence with a
  non-zero exit code; when it has, the process ends with exit code 0, and so does
  every finished run of at least one row.
\<close>

theorem integrity_check_exit:
  "sanity_check (header # first_row # data) =
     (if length first_row \<noteq> 6 + 5 * RECS_PER_USER
      then SysExit (''ERROR: expected 56 columns, got '' @ str_nat (length first_row))
      else Exit0) \<and>
   exit_code (SysExit m) \<noteq> 0 \<and> exit_code Exit0 = 0 \<and>
   (main random_seed a clock fs = Some r \<longrightarrow>
      (\<exists>rest. files r (out a) = Some (map CStr build_header # rest) \<and>
              status r = sanity_check (map CStr build_header # rest))) \<and>
   (main random_seed a clock fs = Some r \<longrightarrow> 1 \<le> rows a \<longrightarrow>
      status r = Exit0 \<and> exit_code (status r) = 0)"
proof (intro conjI impI)
  show "sanity_check (header # first_row # data) =
     (if length first_row \<noteq> 6 + 5 * RECS_PER_USER
      then SysExit (''ERROR: expected 56 columns, got '' @ str_nat (length first_row))
      else Exit0)"
    by (rule sanity_check_rows)
next
  assume m: "main random_seed a clock fs = Some r"
  from main_result[OF m] obtain rest where
    d: "files r = fs(out a \<mapsto> map CStr build_header # rest)"
       "status r = sanity_check (map CStr build_header # rest)"
    by blast
  then show "\<exists>rest. files r (out a) = Some (map CStr build_header # rest) \<and>
              status r = sanity_check (map CStr build_header # rest)"
    by (intro exI[of _ rest]) simp
next
  assume m: "main random_seed a clock fs = Some r" and n: "1 \<le> rows a"
  from main_result[OF m] obtain rest where
    d: "length rest = nat (rows a)"
       "\<forall>row \<in> set rest. length row = 6 + 5 * RECS_PER_USER"
       "status r = sanity_check (map CStr build_header # rest)"
    by blast
  from d(1) n obtain first_row others where r: "rest = first_row # others"
    by (cases rest) auto
  with d(2) have "length first_row = 6 + 5 * RECS_PER_USER" by simp
  then show "status r = Exit0" using d(3) r by (simp add: sanity_check_rows)
  then show "exit_code (status r) = 0" by simp
qed simp_all

theorem integrity_check_exit_witness:
  "sanity_check [[], [CStr ''x'']] = SysExit ''ERROR: expected 56 columns, got 1'' \<and>
   (\<exists>r. main example_seed \<lparr>rows = 1, out = ''out.csv''\<rparr> (0, 1) Map.empty = Some r \<and>
        status r = Exit0 \<and> exit_code (status r) = 0)"
proof -
  obtain r where r: "main example_seed \<lparr>rows = 1, out = ''out.csv''\<rparr> (0, 1) Map.empty = Some r"
    using example_run by blast
  have s: "str_nat 1 = ''1''" by (simp add: str_nat.simps)
  from integrity_check_exit[of "[]" "[CStr ''x'']" "[]" "[]" example_seed
      "\<lparr>rows = 1, out = ''out.csv''\<rparr>" "(0, 1)" Map.empty r] r s
  show ?thesis by (simp add: RECS_PER_USER_def)
qed



text \<open>
  C9: with \<open>rows\<close> = 0 the run ends and the output file holds the header record
  and nothing else.
\<close>

theorem zero_rows_header_only:
  "\<exists>r. main random_seed \<lparr>rows = 0, out = path\<rparr> clock fs = Some r \<and>
       files r path = Some [map CStr build_header]"
  by (simp add: main_no_rows)

theorem zero_rows_header_only_witness:
  "\<exists>r. main example_seed \<lparr>rows = 0, out = ''out.csv''\<rparr> (0, 1) Map.empty = Some r \<and>
       files r ''out.csv'' = Some [map CStr build_header]"
  using zero_rows_header_only[of example_seed "''out.csv''" "(0, 1)" Map.empty] .

text \<open>
  C10: with \<open>rows\<close> = 0 the sanity check finds no first data record: its second
  \<open>next(reader)\<close> raises \<open>StopIteration\<close>, nobody catches it, and the process ends
  with a non-zero exit code although the file written is the well-formed header.
\<close>

theorem zero_rows_stop_iteration:
  "\<exists>r. main random_seed \<lparr>rows = 0, out = path\<rparr> clock fs = Some r \<and>
       status r = Uncaught StopIteration \<and> exit_code (status r) \<noteq> 0 \<and>
       files r path = Some [map CStr build_header]"
  by (simp add: main_no_rows)

theorem zero_rows_stop_iteration_witness:
  "\<exists>r. main example_seed \<lparr>rows = 0, out = ''out.csv''\<rparr> (0, 1) Map.empty = Some r \<and>
       status r = Uncaught StopIteration \<and> exit_code (status r) \<noteq> 0"
  using zero_rows_stop_iteration[of example_seed "''out.csv''" "(0, 1)" Map.empty] by blast

end
